theory Spec2Isabelle
  imports Complex_Main "HOL-Library.Monad_Syntax"
begin

section \<open>Layer stacks of the two autoencoders and their shape arithmetic\<close>

text \<open>
  The constructors of \<open>BaselineAutoencoder\<close> and \<open>BottleneckAutoencoder\<close> build two Python
  lists of layers. A layer is kept with the arguments the constructor passes to it. The
  shape of one sample is \<open>(channels, height, width)\<close>; the batch dimension is carried
  through every layer unchanged and is left out.
\<close>

datatype activation = ReLU | Tanh | Sigmoid

datatype layer =
    Conv2d nat nat nat nat nat
  | ConvTranspose2d nat nat nat nat nat
  | MaxPool2d nat nat
  | MaxUnpool2d nat nat
  | BatchNorm2d nat
  | Act activation

type_synonym shape = "nat \<times> nat \<times> nat"

text \<open>Python's \<open>xs[i]\<close> for \<open>i \<ge> 0\<close>: \<open>None\<close> stands for the IndexError.\<close>

definition item :: "'a list \<Rightarrow> nat \<Rightarrow> 'a option" where
  "item xs i = (if i < length xs then Some (xs ! i) else None)"

text \<open>One round of the encoder loop of \<open>BaselineAutoencoder.__init__\<close> (padding is 1).\<close>

definition baseline_encoder_block ::
  "nat list \<Rightarrow> nat list \<Rightarrow> nat list \<Rightarrow> nat list \<Rightarrow> bool \<Rightarrow> activation \<Rightarrow> nat \<Rightarrow> layer list option" where
  "baseline_encoder_block ins outs ks ss bn internal i =
     do {
       cin \<leftarrow> item ins i;
       cout \<leftarrow> item outs i;
       k \<leftarrow> item ks i;
       s \<leftarrow> item ss i;
       Some ([Conv2d cin cout k s 1]
             @ (if bn then [BatchNorm2d cout] else [])
             @ [Act internal])
     }"

text \<open>One round of the decoder loop: no batch norm after the last transposed convolution.\<close>

definition baseline_decoder_block ::
  "nat list \<Rightarrow> nat list \<Rightarrow> nat list \<Rightarrow> nat list \<Rightarrow> bool \<Rightarrow> activation \<Rightarrow> nat \<Rightarrow> layer list option" where
  "baseline_decoder_block ins outs ks ss bn internal i =
     do {
       cin \<leftarrow> item ins i;
       cout \<leftarrow> item outs i;
       k \<leftarrow> item ks i;
       s \<leftarrow> item ss i;
       Some ([ConvTranspose2d cin cout k s 1]
             @ (if bn \<and> i < length ins - 1 then [BatchNorm2d cout] else [])
             @ [Act internal])
     }"

text \<open>A \<open>for i in range(n)\<close> loop that appends the layers of each round to a list.\<close>

fun collect :: "(nat \<Rightarrow> layer list option) \<Rightarrow> nat list \<Rightarrow> layer list option" where
  "collect blk [] = Some []"
| "collect blk (i # is) =
     do { ls \<leftarrow> blk i; rest \<leftarrow> collect blk is; Some (ls @ rest) }"

record architecture =
  encoder_in_chanels :: "nat list"
  encoder_out_chanels :: "nat list"
  encoder_kernel_sizes :: "nat list"
  encoder_strides :: "nat list"
  decoder_in_chanels :: "nat list"
  decoder_out_chanels :: "nat list"
  decoder_kernel_sizes :: "nat list"
  decoder_strides :: "nat list"
  use_batchnorm :: bool
  internal_activation :: activation
  final_activation :: activation

definition baseline_encoder_layers :: "architecture \<Rightarrow> layer list option" where
  "baseline_encoder_layers a =
     collect (baseline_encoder_block (encoder_in_chanels a) (encoder_out_chanels a)
                (encoder_kernel_sizes a) (encoder_strides a) (use_batchnorm a)
                (internal_activation a))
             [0 ..< length (encoder_in_chanels a)]"

definition baseline_decoder_layers :: "architecture \<Rightarrow> layer list option" where
  "baseline_decoder_layers a =
     do {
       ls \<leftarrow> collect (baseline_decoder_block (decoder_in_chanels a) (decoder_out_chanels a)
                        (decoder_kernel_sizes a) (decoder_strides a) (use_batchnorm a)
                        (internal_activation a))
                     [0 ..< length (decoder_in_chanels a)];
       Some (ls @ [Act (final_activation a)])
     }"

text \<open>The default arguments of \<open>BaselineAutoencoder.__init__\<close>.\<close>

definition baseline_defaults :: architecture where
  "baseline_defaults =
     \<lparr> encoder_in_chanels = [1, 16, 32, 32, 64, 64, 128, 128, 256, 256],
       encoder_out_chanels = [16, 32, 32, 64, 64, 128, 128, 256, 256, 512],
       encoder_kernel_sizes = [3, 4, 3, 4, 3, 4, 3, 4, 3, 4],
       encoder_strides = [1, 2, 1, 2, 1, 2, 1, 2, 1, 2],
       decoder_in_chanels = [512, 256, 128, 64, 32, 16],
       decoder_out_chanels = [256, 128, 64, 32, 16, 1],
       decoder_kernel_sizes = [4, 4, 4, 4, 4, 3],
       decoder_strides = [2, 2, 2, 2, 2, 1],
       use_batchnorm = True,
       internal_activation = ReLU,
       final_activation = Tanh \<rparr>"

text \<open>
  The loops of \<open>BottleneckAutoencoder.__init__\<close>: a max-pooling layer after every
  convolution but the last, an unpooling layer after every transposed convolution but the
  last, and the final activation in place of the internal one in the last round.
\<close>

definition bottleneck_encoder_block ::
  "nat list \<Rightarrow> nat list \<Rightarrow> nat list \<Rightarrow> nat list \<Rightarrow> bool \<Rightarrow> activation \<Rightarrow> nat \<Rightarrow> layer list option" where
  "bottleneck_encoder_block ins outs ks ss bn internal i =
     do {
       cin \<leftarrow> item ins i;
       cout \<leftarrow> item outs i;
       k \<leftarrow> item ks i;
       s \<leftarrow> item ss i;
       Some ([Conv2d cin cout k s 1]
             @ (if i < length ins - 1 then [MaxPool2d 2 2] else [])
             @ (if bn then [BatchNorm2d cout] else [])
             @ [Act internal])
     }"

definition bottleneck_decoder_block ::
  "nat list \<Rightarrow> nat list \<Rightarrow> nat list \<Rightarrow> nat list \<Rightarrow> bool \<Rightarrow> activation \<Rightarrow> activation \<Rightarrow> nat
     \<Rightarrow> layer list option" where
  "bottleneck_decoder_block ins outs ks ss bn internal final i =
     do {
       cin \<leftarrow> item ins i;
       cout \<leftarrow> item outs i;
       k \<leftarrow> item ks i;
       s \<leftarrow> item ss i;
       Some ([ConvTranspose2d cin cout k s 1]
             @ (if i < length ins - 1 then [MaxUnpool2d 2 2] else [])
             @ (if bn \<and> i < length ins - 1 then [BatchNorm2d cout] else [])
             @ (if i < length ins - 1 then [Act internal] else [Act final]))
     }"

definition bottleneck_encoder_layers :: "architecture \<Rightarrow> layer list option" where
  "bottleneck_encoder_layers a =
     collect (bottleneck_encoder_block (encoder_in_chanels a) (encoder_out_chanels a)
                (encoder_kernel_sizes a) (encoder_strides a) (use_batchnorm a)
                (internal_activation a))
             [0 ..< length (encoder_in_chanels a)]"

definition bottleneck_decoder_layers :: "architecture \<Rightarrow> layer list option" where
  "bottleneck_decoder_layers a =
     collect (bottleneck_decoder_block (decoder_in_chanels a) (decoder_out_chanels a)
                (decoder_kernel_sizes a) (decoder_strides a) (use_batchnorm a)
                (internal_activation a) (final_activation a))
             [0 ..< length (decoder_in_chanels a)]"

definition bottleneck_defaults :: architecture where
  "bottleneck_defaults =
     \<lparr> encoder_in_chanels = [1, 16, 32, 64, 128, 256],
       encoder_out_chanels = [16, 32, 64, 128, 256, 256],
       encoder_kernel_sizes = [3, 4, 4, 4, 4, 1],
       encoder_strides = [1, 2, 2, 2, 2, 1],
       decoder_in_chanels = [256, 256, 128, 64, 32, 16],
       decoder_out_chanels = [256, 128, 64, 32, 16, 1],
       decoder_kernel_sizes = [1, 4, 4, 4, 4, 3],
       decoder_strides = [1, 2, 2, 2, 2, 1],
       use_batchnorm = True,
       internal_activation = ReLU,
       final_activation = Sigmoid \<rparr>"

subsection \<open>Output sizes of the library layers\<close>

text \<open>
  The size arithmetic of the tensor library, for a square kernel, dilation 1 and no output
  padding, along one spatial axis. \<open>None\<close> is the library's error for a stride of zero or
  for a size that would not be positive.
\<close>

definition conv_out :: "nat \<Rightarrow> nat \<Rightarrow> nat \<Rightarrow> nat \<Rightarrow> nat option" where
  "conv_out k s p n =
     (if s = 0 \<or> k = 0 \<or> n + 2 * p < k then None else Some ((n + 2 * p - k) div s + 1))"

definition conv_transpose_out :: "nat \<Rightarrow> nat \<Rightarrow> nat \<Rightarrow> nat \<Rightarrow> nat option" where
  "conv_transpose_out k s p n =
     (if s = 0 \<or> k = 0 \<or> n = 0 \<or> (n - 1) * s + k \<le> 2 * p then None
      else Some ((n - 1) * s + k - 2 * p))"

definition pool_out :: "nat \<Rightarrow> nat \<Rightarrow> nat \<Rightarrow> nat option" where
  "pool_out k s n = (if s = 0 \<or> k = 0 \<or> n < k then None else Some ((n - k) div s + 1))"

definition unpool_out :: "nat \<Rightarrow> nat \<Rightarrow> nat \<Rightarrow> nat option" where
  "unpool_out k s n = (if s = 0 \<or> k = 0 \<or> n = 0 then None else Some ((n - 1) * s + k))"

text \<open>
  A layer that takes one tensor and returns one tensor. Pooling with
  \<open>return_indices=True\<close> returns a pair and unpooling needs the indices, so neither can be
  applied this way.
\<close>

fun layer_shape :: "layer \<Rightarrow> shape \<Rightarrow> shape option" where
  "layer_shape (Conv2d cin cout k s p) (c, h, w) =
     (if c \<noteq> cin then None
      else do { h' \<leftarrow> conv_out k s p h; w' \<leftarrow> conv_out k s p w; Some (cout, h', w') })"
| "layer_shape (ConvTranspose2d cin cout k s p) (c, h, w) =
     (if c \<noteq> cin then None
      else do { h' \<leftarrow> conv_transpose_out k s p h; w' \<leftarrow> conv_transpose_out k s p w;
                Some (cout, h', w') })"
| "layer_shape (BatchNorm2d n) (c, h, w) = (if c = n then Some (c, h, w) else None)"
| "layer_shape (Act f) x = Some x"
| "layer_shape (MaxPool2d k s) x = None"
| "layer_shape (MaxUnpool2d k s) x = None"

text \<open>\<open>nn.Sequential\<close>: the layers one after the other.\<close>

fun sequential_shape :: "layer list \<Rightarrow> shape \<Rightarrow> shape option" where
  "sequential_shape [] x = Some x"
| "sequential_shape (l # ls) x = do { y \<leftarrow> layer_shape l x; sequential_shape ls y }"

text \<open>
  \<open>BaselineAutoencoder.forward\<close>: the encoder, then the decoder, both as
  \<open>nn.Sequential\<close>.
\<close>

definition baseline_forward_shape :: "architecture \<Rightarrow> shape \<Rightarrow> shape option" where
  "baseline_forward_shape a x =
     do {
       enc \<leftarrow> baseline_encoder_layers a;
       dec \<leftarrow> baseline_decoder_layers a;
       y \<leftarrow> sequential_shape enc x;
       sequential_shape dec y
     }"

text \<open>
  \<open>BottleneckAutoencoder.forward\<close>: the encoder loop pushes the indices of every pooling
  layer on \<open>maxpool_ind\<close> (here the shape of the index tensor, which is the shape of the
  pooled output); the decoder loop pops the last one for every unpooling layer. The
  unpooling layer needs indices of the shape of its input.
\<close>

fun encoder_loop :: "layer list \<Rightarrow> shape \<Rightarrow> shape list \<Rightarrow> (shape \<times> shape list) option" where
  "encoder_loop [] x inds = Some (x, inds)"
| "encoder_loop (MaxPool2d k s # ls) (c, h, w) inds =
     do {
       h' \<leftarrow> pool_out k s h;
       w' \<leftarrow> pool_out k s w;
       encoder_loop ls (c, h', w') (inds @ [(c, h', w')])
     }"
| "encoder_loop (l # ls) x inds = do { y \<leftarrow> layer_shape l x; encoder_loop ls y inds }"

fun decoder_loop :: "layer list \<Rightarrow> shape \<Rightarrow> shape list \<Rightarrow> shape option" where
  "decoder_loop [] x inds = Some x"
| "decoder_loop (MaxUnpool2d k s # ls) (c, h, w) inds =
     (if inds = [] then None
      else if last inds \<noteq> (c, h, w) then None
      else do {
        h' \<leftarrow> unpool_out k s h;
        w' \<leftarrow> unpool_out k s w;
        decoder_loop ls (c, h', w') (butlast inds)
      })"
| "decoder_loop (l # ls) x inds = do { y \<leftarrow> layer_shape l x; decoder_loop ls y inds }"

definition bottleneck_forward_shape :: "architecture \<Rightarrow> shape \<Rightarrow> shape option" where
  "bottleneck_forward_shape a x =
     do {
       enc \<leftarrow> bottleneck_encoder_layers a;
       dec \<leftarrow> bottleneck_decoder_layers a;
       (y, inds) \<leftarrow> encoder_loop enc x [];
       decoder_loop dec y inds
     }"

section \<open>Numbers and tensors\<close>

text \<open>
  Tensor elements are real numbers: rounding, overflow and signed zeros of the machine
  floats are left out. Division is where the libraries leave the finite numbers without
  raising: a quotient by zero is \<open>nan\<close> or an infinity, so a quotient is an \<open>fval\<close>.
\<close>

datatype fval = Fin real | PInf | NInf | NaN

definition fdiv :: "real \<Rightarrow> real \<Rightarrow> fval" where
  "fdiv x y =
     (if y \<noteq> 0 then Fin (x / y)
      else if x = 0 then NaN
      else if 0 < x then PInf
      else NInf)"

text \<open>
  A batch tensor has four axes: sample, channel, row, column. The elementwise operations
  are used on operands of one shape throughout (image, mask and reconstruction of one
  batch); broadcasting between different shapes is outside this model.
\<close>

type_synonym tensor = "real list list list list"

definition same_shape :: "tensor \<Rightarrow> tensor \<Rightarrow> bool" where
  "same_shape = list_all2 (list_all2 (list_all2 (\<lambda>r s. length r = length s)))"

definition tmap2 :: "(real \<Rightarrow> real \<Rightarrow> real) \<Rightarrow> tensor \<Rightarrow> tensor \<Rightarrow> tensor" where
  "tmap2 f = map2 (map2 (map2 (map2 f)))"

definition tmul :: "tensor \<Rightarrow> tensor \<Rightarrow> tensor" where
  "tmul = tmap2 (\<lambda>x y. x * y)"

text \<open>The sum over the axes 1, 2 and 3 of one sample, and of every sample of a batch.\<close>

definition sample_sum :: "real list list list \<Rightarrow> real" where
  "sample_sum s = sum_list (map (\<lambda>c. sum_list (map sum_list c)) s)"

definition sum_axes_123 :: "tensor \<Rightarrow> real list" where
  "sum_axes_123 t = map sample_sum t"

definition tsum :: "tensor \<Rightarrow> real" where
  "tsum t = sum_list (sum_axes_123 t)"

definition numel :: "tensor \<Rightarrow> nat" where
  "numel t = sum_list (map (\<lambda>s. sum_list (map (\<lambda>c. sum_list (map length c)) s)) t)"

section \<open>Losses\<close>

text \<open>A loss module returns a tensor: a single scalar, or one value per pixel.\<close>

datatype loss_value = Scalar fval | Unreduced tensor

datatype error = ValueError | IndexError | AxisError | NameError | RuntimeError | TypeError

text \<open>
  The library's \<open>nn.MSELoss\<close> with its \<open>reduction\<close> argument: the squared difference of
  every pixel, left as it is, averaged over the number of elements, or summed.
\<close>

definition squared_error :: "tensor \<Rightarrow> tensor \<Rightarrow> tensor" where
  "squared_error = tmap2 (\<lambda>x y. (x - y) ^ 2)"

definition MSELoss :: "string \<Rightarrow> tensor \<Rightarrow> tensor \<Rightarrow> error + loss_value" where
  "MSELoss reduction input target =
     (let loss = squared_error input target in
      if reduction = ''none'' then Inr (Unreduced loss)
      else if reduction = ''mean'' then Inr (Scalar (fdiv (tsum loss) (real (numel loss))))
      else if reduction = ''sum'' then Inr (Scalar (Fin (tsum loss)))
      else Inl ValueError)"

text \<open>
  \<open>MaskedMSE.forward\<close>: the criterion is \<open>nn.MSELoss(reduction='none')\<close>, applied to the
  masked input and the masked target; only the reduction \<open>'mean'\<close> reduces.
\<close>

definition MaskedMSE :: "string \<Rightarrow> tensor \<Rightarrow> tensor \<Rightarrow> tensor \<Rightarrow> loss_value" where
  "MaskedMSE reduction input target msk =
     (let loss = squared_error (tmul input msk) (tmul target msk) in
      if reduction = ''mean'' then Scalar (fdiv (tsum loss) (tsum msk))
      else Unreduced loss)"

section \<open>Library routines used by the evaluation\<close>

text \<open>
  The array and metrics libraries are not part of the repository. Their routines are
  modelled by their documented results on the inputs this program gives them: one-axis
  arrays of finite scores and of binary labels (\<open>True\<close> is the label 1, abnormal).
\<close>

subsection \<open>Array reductions\<close>

text \<open>The comparison \<open>\<le>\<close> of floats: false as soon as one side is \<open>nan\<close>.\<close>

fun fle :: "fval \<Rightarrow> fval \<Rightarrow> bool" where
  "fle NaN y = False"
| "fle x NaN = False"
| "fle (Fin x) (Fin y) = (x \<le> y)"
| "fle NInf y = True"
| "fle x PInf = True"
| "fle PInf y = False"
| "fle (Fin x) NInf = False"

text \<open>\<open>fmax\<close> takes the other operand when one is \<open>nan\<close>; \<open>nanmax\<close> reduces with it.\<close>

fun fmax :: "fval \<Rightarrow> fval \<Rightarrow> fval" where
  "fmax NaN y = y"
| "fmax x NaN = x"
| "fmax x y = (if fle x y then y else x)"

definition nanmax :: "fval list \<Rightarrow> error + fval" where
  "nanmax xs = (case xs of [] \<Rightarrow> Inl ValueError | x # rest \<Rightarrow> Inr (foldl fmax x rest))"

text \<open>
  \<open>argmax\<close> scans from the left and moves to an element that is not \<open>\<le>\<close> the best so far;
  a \<open>nan\<close> is such an element and ends the scan. So the result is the index of the first
  \<open>nan\<close> when there is one, and the first index of the maximum otherwise.
\<close>

fun argmax_loop :: "nat \<Rightarrow> fval \<Rightarrow> nat \<Rightarrow> fval list \<Rightarrow> nat" where
  "argmax_loop max_ind mp i [] = max_ind"
| "argmax_loop max_ind mp i (x # xs) =
     (if \<not> fle x mp then (if x = NaN then i else argmax_loop i x (Suc i) xs)
      else argmax_loop max_ind mp (Suc i) xs)"

definition argmax :: "fval list \<Rightarrow> error + nat" where
  "argmax xs =
     (case xs of [] \<Rightarrow> Inl ValueError
      | x # rest \<Rightarrow> Inr (if x = NaN then 0 else argmax_loop 0 x 1 rest))"

subsection \<open>Classification metrics\<close>

text \<open>
  The counts behind every metric: the samples of one class (\<open>True\<close> positive) that a
  rule \<open>pred\<close> on the score predicts positive.
\<close>

definition count_pred :: "bool \<Rightarrow> (real \<Rightarrow> bool) \<Rightarrow> bool list \<Rightarrow> real list \<Rightarrow> nat" where
  "count_pred cls pred y_true y_score =
     length (filter (\<lambda>(y, s). y = cls \<and> pred s) (zip y_true y_score))"

text \<open>
  \<open>roc_auc_score\<close>: the share of the pairs of a positive and a negative sample that the
  score orders rightly, a tie counting one half. It raises when the labels hold one class
  only (an empty array with them) or when the lengths differ.
\<close>

definition roc_auc_score :: "bool list \<Rightarrow> real list \<Rightarrow> error + real" where
  "roc_auc_score y_true y_score =
     (if length y_true \<noteq> length y_score then Inl ValueError
      else if list_all (\<lambda>y. y) y_true \<or> list_all (\<lambda>y. \<not> y) y_true then Inl ValueError
      else
        let pos = map snd (filter fst (zip y_true y_score));
            neg = map snd (filter (\<lambda>(y, s). \<not> y) (zip y_true y_score));
            wins = sum_list (map (\<lambda>p. sum_list (map (\<lambda>n. if n < p then 1 else if n = p then 1 / 2 else 0) neg)) pos)
        in Inr (wins / (real (length pos) * real (length neg))))"

text \<open>
  \<open>precision_recall_curve\<close>: the thresholds are the distinct scores in increasing order;
  element \<open>i\<close> of precision and of recall is that of the predictions \<open>score \<ge> thresholds[i]\<close>;
  a last pair, precision 1 and recall 0, has no threshold. Library versions differ in two
  points, chosen by \<open>legacy\<close>: the older ones stop at the largest threshold that reaches full
  recall and leave out the thresholds below it, and divide by the number of positives even
  when it is zero; the newer ones keep every threshold and set the recall to 1 when there
  is no positive sample.
\<close>

definition precision_at :: "bool list \<Rightarrow> real list \<Rightarrow> real \<Rightarrow> fval" where
  "precision_at y_true y_score t =
     (let tps = count_pred True (\<lambda>s. t \<le> s) y_true y_score;
          fps = count_pred False (\<lambda>s. t \<le> s) y_true y_score
      in if tps + fps = 0 then Fin 0 else Fin (real tps / real (tps + fps)))"

definition recall_at :: "bool \<Rightarrow> bool list \<Rightarrow> real list \<Rightarrow> real \<Rightarrow> fval" where
  "recall_at legacy y_true y_score t =
     (let tps = count_pred True (\<lambda>s. t \<le> s) y_true y_score;
          total = count_pred True (\<lambda>s. True) y_true y_score
      in if total = 0 \<and> \<not> legacy then Fin 1 else fdiv (real tps) (real total))"

definition curve_thresholds :: "bool \<Rightarrow> bool list \<Rightarrow> real list \<Rightarrow> real list" where
  "curve_thresholds legacy y_true y_score =
     (let ths = sort (remdups y_score);
          total = count_pred True (\<lambda>s. True) y_true y_score;
          full = filter (\<lambda>u. count_pred True (\<lambda>s. u \<le> s) y_true y_score = total) ths
      in if legacy then filter (\<lambda>t. list_all (\<lambda>u. u \<le> t) full) ths else ths)"

definition precision_recall_curve ::
  "bool \<Rightarrow> bool list \<Rightarrow> real list \<Rightarrow> error + (fval list \<times> fval list \<times> real list)" where
  "precision_recall_curve legacy y_true probas_pred =
     (if y_true = [] \<or> length y_true \<noteq> length probas_pred then Inl ValueError
      else
        let thresholds = curve_thresholds legacy y_true probas_pred
        in Inr (map (precision_at y_true probas_pred) thresholds @ [Fin 1],
                map (recall_at legacy y_true probas_pred) thresholds @ [Fin 0],
                thresholds))"

text \<open>
  \<open>f1_score\<close> of binary predictions: the harmonic mean of precision and recall, each of
  them and the score itself 0 where its denominator is 0.
\<close>

definition f1_score :: "bool list \<Rightarrow> bool list \<Rightarrow> error + real" where
  "f1_score y_true y_pred =
     (if length y_true \<noteq> length y_pred then Inl ValueError
      else
        let tp = length (filter (\<lambda>(y, p). y \<and> p) (zip y_true y_pred));
            fp = length (filter (\<lambda>(y, p). \<not> y \<and> p) (zip y_true y_pred));
            fn = length (filter (\<lambda>(y, p). y \<and> \<not> p) (zip y_true y_pred));
            precision = (if tp + fp = 0 then 0 else real tp / real (tp + fp));
            recall = (if tp + fn = 0 then 0 else real tp / real (tp + fn))
        in Inr (if precision + recall = 0 then 0
                else 2 * precision * recall / (precision + recall)))"

section \<open>The autoencoder and its methods\<close>

text \<open>
  The state of a model instance: the learnable weights (\<open>self.parameters()\<close>), their
  gradients, the running statistics of the batch-norm layers, the training flag set by
  \<open>train()\<close> and \<open>eval()\<close>, the two loss flags, and the state of the Adam optimizer (its
  step counter and its two moment estimates).
\<close>

record autoencoder =
  params :: "real list"
  grads :: "real list option"
  buffers :: "real list"
  training :: bool
  masked_loss_on_val :: bool
  masked_loss_on_train :: bool
  adam_step :: nat
  adam_moments :: "real list \<times> real list"

text \<open>
  What the tensor library computes and this development takes as given: the network as a
  function of weights, running statistics and training flag, returning the reconstruction
  and the updated statistics; the gradient of a scalar function of the weights at a point;
  the Adam update of moments and weights for a step number and a gradient.
\<close>

record torch =
  net :: "real list \<Rightarrow> real list \<Rightarrow> bool \<Rightarrow> tensor \<Rightarrow> tensor \<times> real list"
  autograd :: "(real list \<Rightarrow> fval) \<Rightarrow> real list \<Rightarrow> real list"
  adam_update :: "nat \<Rightarrow> real list \<times> real list \<Rightarrow> real list \<Rightarrow> real list
                    \<Rightarrow> (real list \<times> real list) \<times> real list"

text \<open>
  \<open>__init__\<close> sets \<open>inner_loss\<close> and \<open>outer_loss\<close> once, from the two flags; nothing assigns
  them or the flags again, so they are read off the flags.
\<close>

datatype criterion = MaskedMSE_module string | MSELoss_module string

definition inner_loss :: "autoencoder \<Rightarrow> criterion" where
  "inner_loss s = (if masked_loss_on_train s then MaskedMSE_module ''mean'' else MSELoss_module ''mean'')"

definition outer_loss :: "autoencoder \<Rightarrow> criterion" where
  "outer_loss s = (if masked_loss_on_val s then MaskedMSE_module ''none'' else MSELoss_module ''none'')"

text \<open>Calling a loss module with three or with two tensors; the wrong number raises.\<close>

fun call3 :: "criterion \<Rightarrow> tensor \<Rightarrow> tensor \<Rightarrow> tensor \<Rightarrow> error + loss_value" where
  "call3 (MaskedMSE_module r) x y m = Inr (MaskedMSE r x y m)"
| "call3 (MSELoss_module r) x y m = Inl TypeError"

fun call2 :: "criterion \<Rightarrow> tensor \<Rightarrow> tensor \<Rightarrow> error + loss_value" where
  "call2 (MSELoss_module r) x y = MSELoss r x y"
| "call2 (MaskedMSE_module r) x y = Inl TypeError"

record batch =
  batch_image :: tensor
  batch_mask :: tensor
  batch_label :: "bool list"

text \<open>
  \<open>forward\<close>: the reconstruction of a batch. In training mode the batch-norm layers
  update their running statistics; in evaluation mode nothing of the model changes.
\<close>

definition forward :: "torch \<Rightarrow> autoencoder \<Rightarrow> tensor \<Rightarrow> tensor \<times> autoencoder" where
  "forward lib s x =
     (let (y, b) = net lib (params s) (buffers s) (training s) x
      in (y, if training s then s\<lparr>buffers := b\<rparr> else s))"

text \<open>
  \<open>forward_and_save_one_image\<close>: \<open>eval()\<close>, then one forward pass without gradients; the
  two images go to a file, which is outside the state.
\<close>

definition forward_and_save_one_image :: "torch \<Rightarrow> autoencoder \<Rightarrow> tensor \<Rightarrow> tensor \<times> autoencoder" where
  "forward_and_save_one_image lib s inp_image = forward lib (s\<lparr>training := False\<rparr>) inp_image"

subsection \<open>Evaluation\<close>

text \<open>
  The body of the loop over the loader in \<open>evaluate\<close>: the scores that one batch appends
  to \<open>losses\<close>, and the model as the forward pass leaves it. The sums run over the axes
  1, 2 and 3, which a scalar loss does not have.
\<close>

definition batch_scores :: "torch \<Rightarrow> autoencoder \<Rightarrow> batch \<Rightarrow> (error + fval list) \<times> autoencoder" where
  "batch_scores lib s b =
     (let inp = batch_image b;
          msk = batch_mask b;
          (output, s') = forward lib s inp
      in (case (if masked_loss_on_val s' then call3 (outer_loss s') output inp msk
                else call2 (outer_loss s') output inp) of
            Inl e \<Rightarrow> Inl e
          | Inr (Scalar v) \<Rightarrow> Inl AxisError
          | Inr (Unreduced loss) \<Rightarrow>
              (let sum_loss = sum_axes_123 loss;
                   sum_mask = sum_axes_123 msk
               in Inr (map2 fdiv sum_loss sum_mask)),
          s'))"

fun collect_scores ::
  "torch \<Rightarrow> autoencoder \<Rightarrow> batch list \<Rightarrow> fval list \<Rightarrow> bool list
     \<Rightarrow> (error + (fval list \<times> bool list)) \<times> autoencoder" where
  "collect_scores lib s [] losses true_labels = (Inr (losses, true_labels), s)"
| "collect_scores lib s (b # bs) losses true_labels =
     (case batch_scores lib s b of
        (Inl e, s') \<Rightarrow> (Inl e, s')
      | (Inr ls, s') \<Rightarrow> collect_scores lib s' bs (losses @ ls) (true_labels @ batch_label b))"

record metrics =
  metric_roc_auc :: real
  metric_mse :: real
  metric_f1_score :: fval
  metric_optimal_mse_threshold :: real

text \<open>The scores as an array of finite numbers; the metrics library refuses any other.\<close>

fun finite_scores :: "fval list \<Rightarrow> real list option" where
  "finite_scores [] = Some []"
| "finite_scores (Fin x # xs) = map_option (\<lambda>ys. x # ys) (finite_scores xs)"
| "finite_scores (v # xs) = None"

text \<open>
  The elementwise \<open>2 * precision * recall / (precision + recall)\<close>; a \<open>nan\<close> operand gives
  \<open>nan\<close>, and neither array holds an infinity.
\<close>

fun f1_of :: "fval \<Rightarrow> fval \<Rightarrow> fval" where
  "f1_of (Fin p) (Fin r) = fdiv (2 * p * r) (p + r)"
| "f1_of p r = NaN"

text \<open>
  The part of \<open>evaluate\<close> after the loop: ROC-AUC, mean score, and the F1 score with its
  threshold, searched on the precision-recall curve (validation) or given (test).
\<close>

definition compute_metrics ::
  "bool \<Rightarrow> fval list \<Rightarrow> bool list \<Rightarrow> real option \<Rightarrow> error + metrics" where
  "compute_metrics legacy scores true_labels opt_threshold =
     (case finite_scores scores of
        None \<Rightarrow> Inl ValueError
      | Some losses \<Rightarrow>
         (case roc_auc_score true_labels losses of
            Inl e \<Rightarrow> Inl e
          | Inr roc_auc \<Rightarrow>
             (let mse = sum_list losses / real (length losses) in
              case opt_threshold of
                None \<Rightarrow>
                  (case precision_recall_curve legacy true_labels losses of
                     Inl e \<Rightarrow> Inl e
                   | Inr (precision, recall, thresholds) \<Rightarrow>
                      (let f1_scores = map2 f1_of precision recall in
                       case nanmax f1_scores of
                         Inl e \<Rightarrow> Inl e
                       | Inr f1 \<Rightarrow>
                          (case argmax f1_scores of
                             Inl e \<Rightarrow> Inl e
                           | Inr i \<Rightarrow>
                              (case item thresholds i of
                                 None \<Rightarrow> Inl IndexError
                               | Some t \<Rightarrow>
                                   Inr \<lparr> metric_roc_auc = roc_auc, metric_mse = mse,
                                         metric_f1_score = f1,
                                         metric_optimal_mse_threshold = t \<rparr>))))
              | Some thr \<Rightarrow>
                  (let y_pred = map (\<lambda>l. thr < l) losses in
                   case f1_score true_labels y_pred of
                     Inl e \<Rightarrow> Inl e
                   | Inr f1 \<Rightarrow>
                       Inr \<lparr> metric_roc_auc = roc_auc, metric_mse = mse,
                             metric_f1_score = Fin f1,
                             metric_optimal_mse_threshold = thr \<rparr>))))"

text \<open>
  \<open>evaluate\<close>: \<open>eval()\<close>, then, without gradients, the loop and the metrics. The result is
  the metrics or the exception, and the model as the call leaves it. Printing and the
  optional logging to the tracking server do not touch the model.
\<close>

definition evaluate ::
  "torch \<Rightarrow> bool \<Rightarrow> autoencoder \<Rightarrow> batch list \<Rightarrow> metrics option \<Rightarrow> (error + metrics) \<times> autoencoder" where
  "evaluate lib legacy s loader val_metrics =
     (let opt_threshold = map_option metric_optimal_mse_threshold val_metrics;
          s' = s\<lparr>training := False\<rparr>
      in case collect_scores lib s' loader [] [] of
           (Inl e, s'') \<Rightarrow> (Inl e, s'')
         | (Inr (losses, true_labels), s'') \<Rightarrow>
             (compute_metrics legacy losses true_labels opt_threshold, s''))"

subsection \<open>Training\<close>

text \<open>
  \<open>train_on_batch\<close>: \<open>train()\<close>, a forward pass, the inner loss, then \<open>zero_grad\<close>,
  \<open>backward\<close> and one \<open>optimizer.step()\<close>. The gradient is that of the loss of this batch
  as a function of the weights. \<open>backward\<close> needs a scalar loss.
\<close>

definition batch_loss :: "torch \<Rightarrow> autoencoder \<Rightarrow> batch \<Rightarrow> real list \<Rightarrow> error + loss_value" where
  "batch_loss lib s b w =
     (let inp = batch_image b;
          msk = batch_mask b;
          output = fst (net lib w (buffers s) True inp)
      in if masked_loss_on_train s then call3 (inner_loss s) output inp msk
         else call2 (inner_loss s) output inp)"

definition scalar_of :: "error + loss_value \<Rightarrow> fval" where
  "scalar_of r = (case r of Inr (Scalar v) \<Rightarrow> v | _ \<Rightarrow> NaN)"

definition optimizer_step :: "torch \<Rightarrow> autoencoder \<Rightarrow> autoencoder" where
  "optimizer_step lib s =
     (case grads s of
        None \<Rightarrow> s
      | Some g \<Rightarrow>
          (let t = Suc (adam_step s);
               (m, w) = adam_update lib t (adam_moments s) (params s) g
           in s\<lparr>params := w, adam_step := t, adam_moments := m\<rparr>))"

definition train_on_batch :: "torch \<Rightarrow> autoencoder \<Rightarrow> batch \<Rightarrow> (error + fval) \<times> autoencoder" where
  "train_on_batch lib s b =
     (let s1 = s\<lparr>training := True\<rparr>;
          loss = batch_loss lib s1 b (params s1);
          s2 = snd (forward lib s1 (batch_image b))
      in case loss of
           Inl e \<Rightarrow> (Inl e, s2)
         | Inr (Unreduced l) \<Rightarrow> (Inl RuntimeError, s2\<lparr>grads := map_option (map (\<lambda>g. 0)) (grads s2)\<rparr>)
         | Inr (Scalar v) \<Rightarrow>
             (let g = autograd lib (\<lambda>w. scalar_of (batch_loss lib s1 b w)) (params s1);
                  s3 = s2\<lparr>grads := Some g\<rparr>
              in (Inr v, optimizer_step lib s3)))"

subsection \<open>The training script\<close>

text \<open>
  The model of the script is an instance of the class that the script assigns to
  \<open>model_class\<close>. The loop reaches the model through its methods \<open>train_on_batch\<close> and
  \<open>evaluate\<close> only: they are the fields of this record, over any type of model.
\<close>

record 'm model_class =
  model_train_on_batch :: "'m \<Rightarrow> batch \<Rightarrow> (error + fval) \<times> 'm"
  model_evaluate :: "'m \<Rightarrow> batch list \<Rightarrow> metrics option \<Rightarrow> (error + metrics) \<times> 'm"

text \<open>
  The loop of the script over the epochs: every batch of the training loader goes
  through \<open>model.train_on_batch\<close>, then the validation loader through \<open>model.evaluate\<close>,
  called without \<open>val_metrics\<close>. The loaders shuffle, so the batches depend on the epoch.
  \<open>loss\<close> is the script's variable of that name, unbound until the first batch and read
  after the inner loop.
\<close>

fun train_batches ::
  "'m model_class \<Rightarrow> batch list \<Rightarrow> 'm \<Rightarrow> fval option \<Rightarrow> error + ('m \<times> fval option)" where
  "train_batches cls [] model loss = Inr (model, loss)"
| "train_batches cls (batch_data # rest) model loss =
     (case model_train_on_batch cls model batch_data of
        (Inl e, model') \<Rightarrow> Inl e
      | (Inr v, model') \<Rightarrow> train_batches cls rest model' (Some v))"

fun training_loop ::
  "'m model_class \<Rightarrow> (nat \<Rightarrow> batch list) \<Rightarrow> (nat \<Rightarrow> batch list) \<Rightarrow> nat list
     \<Rightarrow> 'm \<Rightarrow> fval option \<Rightarrow> metrics option \<Rightarrow> error + ('m \<times> metrics option)" where
  "training_loop cls train_loader val_loader [] model loss val_metrics = Inr (model, val_metrics)"
| "training_loop cls train_loader val_loader (epoch # epochs) model loss val_metrics =
     (case train_batches cls (train_loader epoch) model loss of
        Inl e \<Rightarrow> Inl e
      | Inr (model1, None) \<Rightarrow> Inl NameError
      | Inr (model1, Some v) \<Rightarrow>
          (case model_evaluate cls model1 (val_loader epoch) None of
             (Inl e, model2) \<Rightarrow> Inl e
           | (Inr m, model2) \<Rightarrow>
               training_loop cls train_loader val_loader epochs model2 (Some v) (Some m)))"

definition train_script ::
  "'m model_class \<Rightarrow> (nat \<Rightarrow> batch list) \<Rightarrow> (nat \<Rightarrow> batch list) \<Rightarrow> nat \<Rightarrow> 'm
     \<Rightarrow> error + ('m \<times> metrics option)" where
  "train_script cls train_loader val_loader num_epochs model =
     training_loop cls train_loader val_loader [1 ..< num_epochs + 1] model None None"


section \<open>Notions used to state the properties\<close>

text \<open>Every element of a tensor satisfies \<open>P\<close>.\<close>

definition tall :: "(real \<Rightarrow> bool) \<Rightarrow> tensor \<Rightarrow> bool" where
  "tall P = list_all (list_all (list_all (list_all P)))"

text \<open>The scalars a returned loss holds, in storage order.\<close>

fun elements :: "loss_value \<Rightarrow> fval list" where
  "elements (Scalar v) = [v]"
| "elements (Unreduced t) = map Fin (concat (concat (concat t)))"

text \<open>
  The per-pixel losses of one batch in \<open>evaluate\<close>, where the model is in evaluation mode:
  with the mask or without it, by the flag.
\<close>

abbreviation eval_pixel_loss :: "torch \<Rightarrow> autoencoder \<Rightarrow> batch \<Rightarrow> tensor" where
  "eval_pixel_loss lib s b \<equiv>
     (if masked_loss_on_val s
      then squared_error (tmul (fst (net lib (params s) (buffers s) False (batch_image b))) (batch_mask b))
             (tmul (batch_image b) (batch_mask b))
      else squared_error (fst (net lib (params s) (buffers s) False (batch_image b))) (batch_image b))"

text \<open>
  Scores that separate the classes: the score of every abnormal sample is above the score
  of every normal one.
\<close>

definition perfectly_separated :: "bool list \<Rightarrow> real list \<Rightarrow> bool" where
  "perfectly_separated y_true y_score =
     list_all (\<lambda>(y, s). list_all (\<lambda>(y', s'). y \<and> \<not> y' \<longrightarrow> s' < s) (zip y_true y_score))
       (zip y_true y_score)"



section \<open>A small instance\<close>




section \<open>Elementwise operations on tensors of one shape\<close>

lemma map2_left_id:
  "list_all2 Q xs ys \<Longrightarrow> list_all R ys \<Longrightarrow> (\<And>x y. Q x y \<Longrightarrow> R y \<Longrightarrow> f x y = x)
     \<Longrightarrow> map2 f xs ys = xs"
  by (induction xs ys rule: list_all2_induct) auto

lemma map2_distrib3:
  "list_all2 Q xs ys \<Longrightarrow> list_all2 Q' xs ms \<Longrightarrow> list_all R ms
   \<Longrightarrow> (\<And>x y m. Q x y \<Longrightarrow> Q' x m \<Longrightarrow> R m \<Longrightarrow> F (G x m) (G y m) = G (F x y) m)
   \<Longrightarrow> map2 F (map2 G xs ms) (map2 G ys ms) = map2 G (map2 F xs ys) ms"
proof (induction xs ys arbitrary: ms rule: list_all2_induct)
  case Nil
  then show ?case by simp
next
  case (Cons x xs y ys)
  then obtain m ms' where ms: "ms = m # ms'" by (cases ms) auto
  with Cons show ?case by auto
qed

lemma same_length_all2: "length xs = length ys \<Longrightarrow> list_all2 (\<lambda>_ _. True) xs ys"
  by (simp add: list_all2_conv_all_nth)

lemma row_mul_ones:
  "length r = length m \<Longrightarrow> list_all (\<lambda>x. x = 1) m \<Longrightarrow> map2 (\<lambda>x y. x * y) r m = (r :: real list)"
  by (rule map2_left_id [where Q = "\<lambda>_ _. True" and R = "\<lambda>x. x = 1"])
     (simp_all add: same_length_all2)

lemma chan_mul_ones:
  "list_all2 (\<lambda>r s. length r = length s) c mc \<Longrightarrow> list_all (list_all (\<lambda>x. x = 1)) mc
     \<Longrightarrow> map2 (map2 (\<lambda>x y. x * y)) c mc = (c :: real list list)"
  by (rule map2_left_id [where Q = "\<lambda>r s. length r = length s" and R = "list_all (\<lambda>x. x = 1)"])
     (simp_all add: row_mul_ones)

lemma sample_mul_ones:
  "list_all2 (list_all2 (\<lambda>r s. length r = length s)) s ms
     \<Longrightarrow> list_all (list_all (list_all (\<lambda>x. x = 1))) ms
     \<Longrightarrow> map2 (map2 (map2 (\<lambda>x y. x * y))) s ms = (s :: real list list list)"
  by (rule map2_left_id [where Q = "list_all2 (\<lambda>r s. length r = length s)"
        and R = "list_all (list_all (\<lambda>x. x = 1))"])
     (simp_all add: chan_mul_ones)

lemma tmul_ones:
  assumes "same_shape input msk" "tall (\<lambda>x. x = 1) msk"
  shows "tmul input msk = input"
  unfolding tmul_def tmap2_def
  by (rule map2_left_id [where Q = "list_all2 (list_all2 (\<lambda>r s. length r = length s))"
        and R = "list_all (list_all (list_all (\<lambda>x. x = 1)))"])
     (use assms in \<open>simp_all add: sample_mul_ones same_shape_def tall_def\<close>)

text \<open>The sum of a tensor of ones is its number of elements.\<close>

lemma row_sum_ones: "list_all (\<lambda>x. x = 1) r \<Longrightarrow> sum_list r = real (length r)"
  by (induction r) auto

lemma chan_sum_ones:
  "list_all (list_all (\<lambda>x. x = 1)) c \<Longrightarrow> sum_list (map sum_list c) = real (sum_list (map length c))"
  by (induction c) (auto simp: row_sum_ones)

lemma sample_sum_ones:
  "list_all (list_all (list_all (\<lambda>x. x = 1))) s
     \<Longrightarrow> sample_sum s = real (sum_list (map (\<lambda>c. sum_list (map length c)) s))"
  unfolding sample_sum_def by (induction s) (auto simp: chan_sum_ones)

lemma tsum_ones: "tall (\<lambda>x. x = 1) t \<Longrightarrow> tsum t = real (numel t)"
  unfolding tall_def tsum_def numel_def sum_axes_123_def
  by (induction t) (auto simp: sample_sum_ones)

text \<open>Tensors of one shape: number of elements, results of elementwise operations.\<close>

lemma sum_list_all2_cong:
  "list_all2 Q xs ys \<Longrightarrow> (\<And>x y. Q x y \<Longrightarrow> f x = g y)
     \<Longrightarrow> sum_list (map f xs) = (sum_list (map g ys) :: nat)"
  by (induction xs ys rule: list_all2_induct) auto

lemma numel_same_shape: "same_shape a b \<Longrightarrow> numel a = numel b"
  unfolding same_shape_def numel_def
  apply (erule sum_list_all2_cong)
  apply (erule sum_list_all2_cong)
  apply (erule sum_list_all2_cong)
  apply assumption
  done

lemma list_all2_map2_left:
  "list_all2 Q xs ys \<Longrightarrow> (\<And>x y. Q x y \<Longrightarrow> Q' (F x y) x) \<Longrightarrow> list_all2 Q' (map2 F xs ys) xs"
  by (induction xs ys rule: list_all2_induct) auto

lemma same_shape_tmap2: "same_shape a b \<Longrightarrow> same_shape (tmap2 f a b) a"
  unfolding same_shape_def tmap2_def
  apply (erule list_all2_map2_left)
  apply (erule list_all2_map2_left)
  apply (erule list_all2_map2_left)
  apply simp
  done

lemma same_shape_refl: "same_shape a a"
  unfolding same_shape_def by (simp add: list_all2_same list.rel_refl)


lemma list_all2_flip:
  "list_all2 Q xs ys \<Longrightarrow> (\<And>x y. Q x y \<Longrightarrow> Q' y x) \<Longrightarrow> list_all2 Q' ys xs"
  by (induction xs ys rule: list_all2_induct) auto

lemma same_shape_sym: "same_shape a b \<Longrightarrow> same_shape b a"
  unfolding same_shape_def
  apply (erule list_all2_flip)
  apply (erule list_all2_flip)
  apply (erule list_all2_flip)
  apply simp
  done

lemma same_shape_trans: "same_shape a b \<Longrightarrow> same_shape b c \<Longrightarrow> same_shape a c"
  unfolding same_shape_def
  apply (erule list_all2_trans [rotated])
   apply assumption
  apply (erule list_all2_trans [rotated])
   apply assumption
  apply (erule list_all2_trans [rotated])
   apply assumption
  apply simp
  done

text \<open>With a mask of zeros and ones, masking before squaring is masking after it.\<close>

lemma masked_sq_pointwise:
  "m = 0 \<or> m = 1 \<Longrightarrow> (x * m - y * m) ^ 2 = (x - y) ^ 2 * (m :: real)"
  by auto

lemma row_masked_sq:
  "length r = length r' \<Longrightarrow> length r = length m \<Longrightarrow> list_all (\<lambda>m. m = 0 \<or> m = 1) m
   \<Longrightarrow> map2 (\<lambda>x y. (x - y) ^ 2) (map2 (\<lambda>x y. x * y) r m) (map2 (\<lambda>x y. x * y) r' m)
       = map2 (\<lambda>x y. x * y) (map2 (\<lambda>x y. (x - y) ^ 2) r r') (m :: real list)"
  by (rule map2_distrib3 [where Q = "\<lambda>_ _. True" and Q' = "\<lambda>_ _. True"
        and R = "\<lambda>m. m = 0 \<or> m = 1"])
     (simp_all add: same_length_all2 masked_sq_pointwise)

lemma chan_masked_sq:
  "list_all2 (\<lambda>r s. length r = length s) c c' \<Longrightarrow> list_all2 (\<lambda>r s. length r = length s) c mc
   \<Longrightarrow> list_all (list_all (\<lambda>m. m = 0 \<or> m = 1)) mc
   \<Longrightarrow> map2 (map2 (\<lambda>x y. (x - y) ^ 2)) (map2 (map2 (\<lambda>x y. x * y)) c mc)
            (map2 (map2 (\<lambda>x y. x * y)) c' mc)
       = map2 (map2 (\<lambda>x y. x * y)) (map2 (map2 (\<lambda>x y. (x - y) ^ 2)) c c') (mc :: real list list)"
  by (rule map2_distrib3 [where Q = "\<lambda>r s. length r = length s" and Q' = "\<lambda>r s. length r = length s"
        and R = "list_all (\<lambda>m. m = 0 \<or> m = 1)"])
     (simp_all add: row_masked_sq)

lemma sample_masked_sq:
  "list_all2 (list_all2 (\<lambda>r s. length r = length s)) s s'
   \<Longrightarrow> list_all2 (list_all2 (\<lambda>r s. length r = length s)) s ms
   \<Longrightarrow> list_all (list_all (list_all (\<lambda>m. m = 0 \<or> m = 1))) ms
   \<Longrightarrow> map2 (map2 (map2 (\<lambda>x y. (x - y) ^ 2))) (map2 (map2 (map2 (\<lambda>x y. x * y))) s ms)
            (map2 (map2 (map2 (\<lambda>x y. x * y))) s' ms)
       = map2 (map2 (map2 (\<lambda>x y. x * y))) (map2 (map2 (map2 (\<lambda>x y. (x - y) ^ 2))) s s')
            (ms :: real list list list)"
  by (rule map2_distrib3 [where Q = "list_all2 (\<lambda>r s. length r = length s)"
        and Q' = "list_all2 (\<lambda>r s. length r = length s)"
        and R = "list_all (list_all (\<lambda>m. m = 0 \<or> m = 1))"])
     (simp_all add: chan_masked_sq)

lemma squared_error_masked:
  assumes "same_shape input target" "same_shape input msk" "tall (\<lambda>m. m = 0 \<or> m = 1) msk"
  shows "squared_error (tmul input msk) (tmul target msk) = tmul (squared_error input target) msk"
  unfolding squared_error_def tmul_def tmap2_def
  by (rule map2_distrib3 [where Q = "list_all2 (list_all2 (\<lambda>r s. length r = length s))"
        and Q' = "list_all2 (list_all2 (\<lambda>r s. length r = length s))"
        and R = "list_all (list_all (list_all (\<lambda>m. m = 0 \<or> m = 1)))"])
     (use assms in \<open>simp_all add: sample_masked_sq same_shape_def tall_def\<close>)

lemma list_all_map2:
  "list_all R xs \<Longrightarrow> list_all R' ys \<Longrightarrow> (\<And>x y. R x \<Longrightarrow> R' y \<Longrightarrow> R'' (f x y))
     \<Longrightarrow> list_all R'' (map2 f xs ys)"
proof (induction xs arbitrary: ys)
  case Nil
  then show ?case by simp
next
  case (Cons x xs)
  then show ?case by (cases ys) auto
qed

lemma tall_tmap2:
  assumes pw: "\<And>x y. R x \<Longrightarrow> R' y \<Longrightarrow> R'' (f x y)"
    and a: "tall R a" and b: "tall R' b"
  shows "tall R'' (tmap2 f a b)"
proof -
  have 1: "list_all R'' (map2 f r r')" if "list_all R r" "list_all R' r'" for r r'
    using that by (rule list_all_map2) (rule pw)
  have 2: "list_all (list_all R'') (map2 (map2 f) c c')"
    if "list_all (list_all R) c" "list_all (list_all R') c'" for c c'
    using that by (rule list_all_map2) (rule 1)
  have 3: "list_all (list_all (list_all R'')) (map2 (map2 (map2 f)) s s')"
    if "list_all (list_all (list_all R)) s" "list_all (list_all (list_all R')) s'" for s s'
    using that by (rule list_all_map2) (rule 2)
  show ?thesis
    using a b unfolding tall_def tmap2_def by (rule list_all_map2) (rule 3)
qed

lemma tall_True: "tall (\<lambda>_. True) a"
  unfolding tall_def by (simp add: list_all_iff)

lemma row_sum_zeros: "list_all (\<lambda>x. x = 0) r \<Longrightarrow> sum_list r = (0 :: real)"
  by (induction r) auto

lemma chan_sum_zeros:
  "list_all (list_all (\<lambda>x. x = 0)) c \<Longrightarrow> sum_list (map sum_list c) = (0 :: real)"
  by (induction c) (auto simp: row_sum_zeros)

lemma sample_sum_zeros:
  "list_all (list_all (list_all (\<lambda>x. x = 0))) s \<Longrightarrow> sample_sum s = 0"
  unfolding sample_sum_def by (induction s) (auto simp: chan_sum_zeros)

lemma tsum_zeros: "tall (\<lambda>x. x = 0) t \<Longrightarrow> tsum t = 0"
  unfolding tall_def tsum_def sum_axes_123_def
  by (induction t) (auto simp: sample_sum_zeros)

section \<open>The masked reconstruction loss\<close>

text \<open>
  C2, as the code has it. In \<open>'mean'\<close> reduction, \<open>MaskedMSE\<close> masks the input and the
  target before the squared error is taken. For a mask of zeros and ones (a validity
  mask), and tensors of one shape, the result is the per-pixel squared error multiplied by
  the mask, summed and divided by the sum of the mask (not by the number of pixels).
\<close>

theorem masked_mse_mean_binary:
  assumes "same_shape input target" "same_shape input msk" "tall (\<lambda>m. m = 0 \<or> m = 1) msk"
  shows "MaskedMSE ''mean'' input target msk
           = Scalar (fdiv (tsum (tmul (squared_error input target) msk)) (tsum msk))"
  by (simp add: MaskedMSE_def Let_def squared_error_masked [OF assms])

theorem masked_mse_mean_binary_witness:
  "same_shape [[[[3, 5]]]] [[[[1, 1]]]] \<and> same_shape [[[[3, 5]]]] [[[[1, 0]]]]
   \<and> tall (\<lambda>m. m = 0 \<or> m = 1) [[[[1, 0]]]]
   \<and> MaskedMSE ''mean'' [[[[3, 5]]]] [[[[1, 1]]]] [[[[1, 0]]]] = Scalar (Fin 4)
   \<and> fdiv (tsum (tmul (squared_error [[[[3, 5]]]] [[[[1, 1]]]]) [[[[1, 0]]]])) (tsum [[[[1, 0]]]])
       = Fin 4"
proof -
  have h1: "same_shape [[[[3, 5]]]] [[[[1, 1]]]]" by (simp add: same_shape_def)
  have h2: "same_shape [[[[3, 5]]]] [[[[1, 0]]]]" by (simp add: same_shape_def)
  have h3: "tall (\<lambda>m. m = 0 \<or> m = 1) [[[[1, 0]]]]" by (simp add: tall_def)
  have v: "fdiv (tsum (tmul (squared_error [[[[3, 5]]]] [[[[1, 1]]]]) [[[[1, 0]]]])) (tsum [[[[1, 0]]]])
             = Fin 4"
    by (simp add: tmul_def tmap2_def squared_error_def tsum_def sum_axes_123_def
        sample_sum_def fdiv_def)
  from masked_mse_mean_binary [OF h1 h2 h3] h1 h2 h3 v show ?thesis by simp
qed

text \<open>
  C2, as the claim has it, for every mask tensor: false for a mask that is not of zeros
  and ones. With the mask value 2 the code returns \<open>(1 * 2 - 0 * 2)\<^sup>2 / 2 = 2\<close>, the
  claim's formula \<open>(1 - 0)\<^sup>2 * 2 / 2 = 1\<close>.
\<close>

theorem masked_mse_mean_counterexample:
  "same_shape [[[[1]]]] [[[[0]]]] \<and> same_shape [[[[1]]]] [[[[2]]]]
   \<and> MaskedMSE ''mean'' [[[[1]]]] [[[[0]]]] [[[[2]]]]
       \<noteq> Scalar (fdiv (tsum (tmul (squared_error [[[[1]]]] [[[[0]]]]) [[[[2]]]])) (tsum [[[[2]]]]))"
  by (simp add: same_shape_def MaskedMSE_def tmul_def tmap2_def squared_error_def tsum_def
      sum_axes_123_def sample_sum_def fdiv_def)

text \<open>
  C7. For input, target and mask of one shape and a mask of ones, \<open>MaskedMSE\<close> in
  \<open>'mean'\<close> reduction returns what the standard mean-squared-error loss returns.
\<close>

theorem masked_mse_all_ones:
  assumes "same_shape input target" "same_shape input msk" "tall (\<lambda>x. x = 1) msk"
  shows "MSELoss ''mean'' input target = Inr (MaskedMSE ''mean'' input target msk)"
proof -
  have tm: "same_shape target msk"
    using assms(1,2) same_shape_sym same_shape_trans by blast
  have i: "tmul input msk = input" using assms(2,3) by (rule tmul_ones)
  have t: "tmul target msk = target" using tm assms(3) by (rule tmul_ones)
  have "numel (squared_error input target) = numel input"
    unfolding squared_error_def using assms(1) by (intro numel_same_shape same_shape_tmap2)
  also have "\<dots> = numel msk" using assms(2) by (rule numel_same_shape)
  finally have n: "real (numel (squared_error input target)) = tsum msk"
    using assms(3) by (simp add: tsum_ones)
  show ?thesis
    by (simp add: MSELoss_def MaskedMSE_def Let_def i t n)
qed

theorem masked_mse_all_ones_witness:
  "same_shape [[[[3, 5]]]] [[[[1, 1]]]] \<and> tall (\<lambda>x. x = 1) [[[[1, 1]]]]
   \<and> MSELoss ''mean'' [[[[3, 5]]]] [[[[1, 1]]]] = Inr (Scalar (Fin 10))
   \<and> MaskedMSE ''mean'' [[[[3, 5]]]] [[[[1, 1]]]] [[[[1, 1]]]] = Scalar (Fin 10)"
proof -
  have h1: "same_shape [[[[3, 5]]]] [[[[1, 1]]]]" by (simp add: same_shape_def)
  have h3: "tall (\<lambda>x. x = 1) [[[[1, 1]]]]" by (simp add: tall_def)
  have v: "MSELoss ''mean'' [[[[3, 5]]]] [[[[1, 1]]]] = Inr (Scalar (Fin 10))"
    by (simp add: MSELoss_def tmap2_def squared_error_def tsum_def sum_axes_123_def
        sample_sum_def numel_def fdiv_def)
  from masked_mse_all_ones [OF h1 h1 h3] h1 h3 v show ?thesis by simp
qed

text \<open>
  C8. For input, target and mask of one shape and a mask of zeros, the sum of the mask,
  by which \<open>MaskedMSE\<close> in \<open>'mean'\<close> reduction divides, is zero; nothing guards the
  division, no exception is raised, and the value returned is \<open>nan\<close>, not a number.
\<close>

theorem masked_mse_zero_mask:
  assumes "same_shape input target" "same_shape input msk" "tall (\<lambda>m. m = 0) msk"
  shows "tsum msk = 0 \<and> MaskedMSE ''mean'' input target msk = Scalar NaN"
proof -
  have i: "tall (\<lambda>x. x = 0) (tmul input msk)"
    unfolding tmul_def by (rule tall_tmap2 [OF _ tall_True assms(3)]) simp
  have t: "tall (\<lambda>x. x = 0) (tmul target msk)"
    unfolding tmul_def by (rule tall_tmap2 [OF _ tall_True assms(3)]) simp
  have "tall (\<lambda>x. x = 0) (squared_error (tmul input msk) (tmul target msk))"
    unfolding squared_error_def by (rule tall_tmap2 [OF _ i t]) simp
  then have l: "tsum (squared_error (tmul input msk) (tmul target msk)) = 0"
    by (rule tsum_zeros)
  have m: "tsum msk = 0" using assms(3) by (rule tsum_zeros)
  show ?thesis by (simp add: MaskedMSE_def Let_def l m fdiv_def)
qed

theorem masked_mse_zero_mask_witness:
  "same_shape [[[[3, 5]]]] [[[[1, 1]]]] \<and> same_shape [[[[3, 5]]]] [[[[0, 0]]]]
   \<and> tall (\<lambda>m. m = 0) [[[[0, 0]]]]
   \<and> tsum [[[[0, 0]]]] = 0
   \<and> MaskedMSE ''mean'' [[[[3, 5]]]] [[[[1, 1]]]] [[[[0, 0]]]] = Scalar NaN"
proof -
  have h1: "same_shape [[[[3, 5]]]] [[[[1, 1]]]]" by (simp add: same_shape_def)
  have h2: "same_shape [[[[3, 5]]]] [[[[0, 0]]]]" by (simp add: same_shape_def)
  have h3: "tall (\<lambda>m. m = 0) [[[[0, 0]]]]" by (simp add: tall_def)
  from masked_mse_zero_mask [OF h1 h2 h3] h1 h2 h3 show ?thesis by simp
qed

text \<open>
  C3, as the code has it. For input, target and mask of one shape, \<open>MaskedMSE\<close> with the
  reduction \<open>'none'\<close> returns the squared error of the masked input and the masked target
  pixel by pixel, a tensor of the shape of the input, with no sum over a sample (the sum
  over the axes 1, 2 and 3 is taken by \<open>evaluate\<close>); with \<open>'mean'\<close> it returns one scalar.
\<close>

theorem masked_mse_none_per_pixel:
  assumes "same_shape input target" "same_shape input msk"
  shows "MaskedMSE ''none'' input target msk
           = Unreduced (squared_error (tmul input msk) (tmul target msk))
         \<and> same_shape (squared_error (tmul input msk) (tmul target msk)) input
         \<and> MaskedMSE ''mean'' input target msk
           = Scalar (fdiv (tsum (squared_error (tmul input msk) (tmul target msk))) (tsum msk))"
proof -
  have tm: "same_shape target msk"
    using assms same_shape_sym same_shape_trans by blast
  have a: "same_shape (tmul input msk) input"
    unfolding tmul_def using assms(2) by (rule same_shape_tmap2)
  have b: "same_shape (tmul target msk) target"
    unfolding tmul_def using tm by (rule same_shape_tmap2)
  have "same_shape (tmul input msk) (tmul target msk)"
    using a b assms(1) same_shape_sym same_shape_trans by blast
  then have "same_shape (squared_error (tmul input msk) (tmul target msk)) (tmul input msk)"
    unfolding squared_error_def by (rule same_shape_tmap2)
  with a have "same_shape (squared_error (tmul input msk) (tmul target msk)) input"
    using same_shape_trans by blast
  then show ?thesis by (simp add: MaskedMSE_def Let_def)
qed

theorem masked_mse_none_per_pixel_witness:
  "same_shape [[[[3, 5]]]] [[[[1, 1]]]] \<and> same_shape [[[[3, 5]]]] [[[[1, 0]]]]
   \<and> MaskedMSE ''none'' [[[[3, 5]]]] [[[[1, 1]]]] [[[[1, 0]]]] = Unreduced [[[[4, 0]]]]
   \<and> same_shape [[[[4, 0]]]] [[[[3, 5]]]]
   \<and> MaskedMSE ''mean'' [[[[3, 5]]]] [[[[1, 1]]]] [[[[1, 0]]]] = Scalar (Fin 4)"
proof -
  have h1: "same_shape [[[[3, 5]]]] [[[[1, 1]]]]" by (simp add: same_shape_def)
  have h2: "same_shape [[[[3, 5]]]] [[[[1, 0]]]]" by (simp add: same_shape_def)
  have v: "squared_error (tmul [[[[3, 5]]]] [[[[1, 0]]]]) (tmul [[[[1, 1]]]] [[[[1, 0]]]])
             = [[[[4, 0]]]]"
    by (simp add: tmul_def tmap2_def squared_error_def)
  have w: "fdiv (tsum [[[[4, 0]]]]) (tsum [[[[1, 0]]]]) = Fin 4"
    by (simp add: tsum_def sum_axes_123_def sample_sum_def fdiv_def)
  from masked_mse_none_per_pixel [OF h1 h2] h1 h2 show ?thesis
    unfolding v w by simp
qed

text \<open>
  C3, as the claim has it, one scalar per sample in the reduction \<open>'none'\<close>: false. For a
  batch of one sample of two pixels the code returns the two squared errors 4 and 16,
  not their sum 20.
\<close>

theorem masked_mse_none_counterexample:
  "same_shape [[[[3, 5]]]] [[[[1, 1]]]]
   \<and> elements (MaskedMSE ''none'' [[[[3, 5]]]] [[[[1, 1]]]] [[[[1, 1]]]]) = [Fin 4, Fin 16]
   \<and> map Fin (sum_axes_123 (squared_error (tmul [[[[3, 5]]]] [[[[1, 1]]]])
                                           (tmul [[[[1, 1]]]] [[[[1, 1]]]]))) = [Fin 20]
   \<and> length (elements (MaskedMSE ''none'' [[[[3, 5]]]] [[[[1, 1]]]] [[[[1, 1]]]]))
       \<noteq> length [[[[3, 5 :: real]]]]"
  by (simp add: same_shape_def MaskedMSE_def tmul_def tmap2_def squared_error_def
      sum_axes_123_def sample_sum_def)

section \<open>Shapes through the default architectures\<close>

text \<open>
  C5. With the default layer parameters, a 512 by 512 single-channel input leaves the
  baseline autoencoder and the bottleneck autoencoder with its own shape: no layer
  raises, and the decoder's output is 512 by 512.
\<close>

theorem default_architectures_keep_512:
  "baseline_forward_shape baseline_defaults (1, 512, 512) = Some (1, 512, 512)
   \<and> bottleneck_forward_shape bottleneck_defaults (1, 512, 512) = Some (1, 512, 512)"
  by code_simp


section \<open>The evaluation loop\<close>

text \<open>
  In evaluation mode a forward pass leaves the model as it is, so the loop of \<open>evaluate\<close>
  appends, batch after batch, the quotients of the two sums, and returns the model it
  was given with the training flag off.
\<close>

lemma forward_eval:
  "\<not> training s \<Longrightarrow> forward lib s x = (fst (net lib (params s) (buffers s) False x), s)"
  by (simp add: forward_def split: prod.splits)

lemma batch_scores_eval:
  assumes "\<not> training s"
  shows "batch_scores lib s b =
           (Inr (map2 fdiv (sum_axes_123 (eval_pixel_loss lib s b)) (sum_axes_123 (batch_mask b))), s)"
  using assms
  by (simp add: batch_scores_def forward_eval outer_loss_def MaskedMSE_def MSELoss_def Let_def)

lemma collect_scores_eval:
  assumes "\<not> training s"
  shows "collect_scores lib s loader losses true_labels =
           (Inr (losses @ concat (map (\<lambda>b. map2 fdiv (sum_axes_123 (eval_pixel_loss lib s b))
                                            (sum_axes_123 (batch_mask b))) loader),
                 true_labels @ concat (map batch_label loader)), s)"
proof (induction loader arbitrary: losses true_labels)
  case Nil
  show ?case by simp
next
  case (Cons b bs)
  show ?case
    by (simp only: collect_scores.simps batch_scores_eval [OF assms] prod.case sum.case Cons.IH)
       simp
qed

lemma evaluate_eq:
  "evaluate lib legacy s loader val_metrics =
     (compute_metrics legacy
        (concat (map (\<lambda>b. map2 fdiv (sum_axes_123 (eval_pixel_loss lib s b))
                              (sum_axes_123 (batch_mask b))) loader))
        (concat (map batch_label loader))
        (map_option metric_optimal_mse_threshold val_metrics),
      s\<lparr>training := False\<rparr>)"
proof -
  have t: "\<not> training (s\<lparr>training := False\<rparr>)" by simp
  show ?thesis
    unfolding evaluate_def Let_def collect_scores_eval [OF t] by (simp cong: if_cong)
qed

text \<open>
  C4. The scores that \<open>evaluate\<close> passes to the metrics are, for every batch of the
  loader in turn and every sample of the batch, the sum of the per-pixel losses of the
  sample divided by the sum of the mask of the sample; the divisor is the sum of the
  mask also when \<open>masked_loss_on_val\<close> is off and the per-pixel losses are those of the
  plain squared error, computed without the mask.
\<close>

theorem evaluate_score_loss_sum_over_mask_sum:
  "fst (evaluate lib legacy s loader val_metrics) =
     compute_metrics legacy
       (concat (map (\<lambda>b. map2 fdiv (sum_axes_123 (eval_pixel_loss lib s b))
                             (sum_axes_123 (batch_mask b))) loader))
       (concat (map batch_label loader))
       (map_option metric_optimal_mse_threshold val_metrics)
   \<and> fst (batch_scores lib (s\<lparr>training := False, masked_loss_on_val := False\<rparr>) b) =
       Inr (map2 fdiv
              (map sample_sum
                 (squared_error (fst (net lib (params s) (buffers s) False (batch_image b)))
                    (batch_image b)))
              (map sample_sum (batch_mask b)))"
  by (simp add: evaluate_eq batch_scores_eval sum_axes_123_def)

section \<open>The threshold of the validation\<close>

text \<open>
  C1. The F1 score that the validation returns is the maximum that ignores \<open>nan\<close>, the
  index of the threshold is the one of \<open>argmax\<close>, for which a \<open>nan\<close> is the maximum. With
  the labels 1, 0 and the scores 1, 2 (the sample of the highest score is normal) the F1
  scores along the curve are 2/3, \<open>nan\<close> and 0: the score returned is 2/3, reached at the
  threshold 1, and the threshold returned is 2, the one of the \<open>nan\<close>.
\<close>

theorem validation_threshold_at_nan:
  "compute_metrics legacy [Fin 1, Fin 2] [True, False] None
     = Inr \<lparr> metric_roc_auc = 0, metric_mse = 3 / 2, metric_f1_score = Fin (2 / 3),
             metric_optimal_mse_threshold = 2 \<rparr>
   \<and> map2 f1_of (map (precision_at [True, False] [1, 2]) [1, 2] @ [Fin 1])
                (map (recall_at legacy [True, False] [1, 2]) [1, 2] @ [Fin 0])
       = [Fin (2 / 3), NaN, Fin 0]
   \<and> nanmax [Fin (2 / 3), NaN, Fin 0] = Inr (Fin (2 / 3))
   \<and> argmax [Fin (2 / 3), NaN, Fin 0] = Inr 1"
  by (cases legacy)
     (simp_all add: compute_metrics_def roc_auc_score_def precision_recall_curve_def
        curve_thresholds_def count_pred_def precision_at_def recall_at_def nanmax_def
        argmax_def item_def fdiv_def Let_def)

section \<open>The learnable weights\<close>

lemma train_on_batch_eq:
  "train_on_batch lib s b =
     (Inr (scalar_of (batch_loss lib (s\<lparr>training := True\<rparr>) b (params s))),
      optimizer_step lib
        ((snd (forward lib (s\<lparr>training := True\<rparr>) (batch_image b)))
           \<lparr>grads := Some (autograd lib (\<lambda>w. scalar_of (batch_loss lib (s\<lparr>training := True\<rparr>) b w)) (params s))\<rparr>))"
  by (simp add: train_on_batch_def batch_loss_def inner_loss_def MaskedMSE_def MSELoss_def
      scalar_of_def Let_def)

lemma forward_frame:
  "params (snd (forward lib s x)) = params s"
  "grads (snd (forward lib s x)) = grads s"
  "adam_step (snd (forward lib s x)) = adam_step s"
  "adam_moments (snd (forward lib s x)) = adam_moments s"
  "masked_loss_on_train (snd (forward lib s x)) = masked_loss_on_train s"
  "masked_loss_on_val (snd (forward lib s x)) = masked_loss_on_val s"
  "training (snd (forward lib s x)) = training s"
  by (simp_all add: forward_def split: prod.splits)

lemma optimizer_step_Some:
  "grads s = Some g \<Longrightarrow>
     optimizer_step lib s =
       s\<lparr>params := snd (adam_update lib (Suc (adam_step s)) (adam_moments s) (params s) g),
         adam_step := Suc (adam_step s),
         adam_moments := fst (adam_update lib (Suc (adam_step s)) (adam_moments s) (params s) g)\<rparr>"
  by (simp add: optimizer_step_def Let_def split: prod.splits)

lemma train_on_batch_step:
  "adam_step (snd (train_on_batch lib s b)) = Suc (adam_step s)"
  by (simp add: train_on_batch_eq optimizer_step_Some forward_frame)

text \<open>
  C9. \<open>evaluate\<close> returns the model with its weights and its gradients as they were,
  only the training flag is off; \<open>forward\<close> and \<open>forward_and_save_one_image\<close> keep the
  weights; in \<open>train_on_batch\<close> the weights are those of the call until the optimizer
  step, whose Adam update gives the new ones.
\<close>

theorem parameters_change_in_optimizer_step_only:
  "snd (evaluate lib legacy s loader val_metrics) = s\<lparr>training := False\<rparr>
   \<and> params (snd (evaluate lib legacy s loader val_metrics)) = params s
   \<and> grads (snd (evaluate lib legacy s loader val_metrics)) = grads s
   \<and> params (snd (forward lib s x)) = params s
   \<and> params (snd (forward_and_save_one_image lib s x)) = params s
   \<and> (\<exists>s3 g. snd (train_on_batch lib s b) = optimizer_step lib s3
         \<and> params s3 = params s \<and> grads s3 = Some g
         \<and> params (snd (train_on_batch lib s b))
             = snd (adam_update lib (Suc (adam_step s)) (adam_moments s) (params s) g))"
proof -
  have e: "snd (evaluate lib legacy s loader val_metrics) = s\<lparr>training := False\<rparr>"
    by (simp add: evaluate_eq)
  have f: "params (snd (forward_and_save_one_image lib s x)) = params s"
    by (simp add: forward_and_save_one_image_def forward_frame)
  let ?g = "autograd lib (\<lambda>w. scalar_of (batch_loss lib (s\<lparr>training := True\<rparr>) b w)) (params s)"
  let ?s3 = "(snd (forward lib (s\<lparr>training := True\<rparr>) (batch_image b)))\<lparr>grads := Some ?g\<rparr>"
  have t: "snd (train_on_batch lib s b) = optimizer_step lib ?s3
         \<and> params ?s3 = params s \<and> grads ?s3 = Some ?g
         \<and> params (snd (train_on_batch lib s b))
             = snd (adam_update lib (Suc (adam_step s)) (adam_moments s) (params s) ?g)"
    by (simp add: train_on_batch_eq optimizer_step_Some forward_frame)
  then have "\<exists>s3 g. snd (train_on_batch lib s b) = optimizer_step lib s3
         \<and> params s3 = params s \<and> grads s3 = Some g
         \<and> params (snd (train_on_batch lib s b))
             = snd (adam_update lib (Suc (adam_step s)) (adam_moments s) (params s) g)"
    by blast
  then show ?thesis using e f by (simp add: forward_frame)
qed

section \<open>The training loop\<close>







section \<open>Scores that separate the two classes\<close>

subsection \<open>Maximum and argmax of an array without \<open>nan\<close>\<close>

lemma foldl_fmax_Fin: "foldl fmax (Fin x) (map Fin rs) = Fin (foldl max x rs)"
proof (induction rs arbitrary: x)
  case Nil
  then show ?case by simp
next
  case (Cons r rs)
  have "fmax (Fin x) (Fin r) = Fin (max x r)" by (simp add: max_def)
  with Cons show ?case by simp
qed

lemma foldl_max_ge_init: "x \<le> foldl max (x :: real) rs"
proof (induction rs arbitrary: x)
  case Nil
  show ?case by simp
next
  case (Cons r rs)
  have "x \<le> max x r" by simp
  also have "\<dots> \<le> foldl max (max x r) rs" by (rule Cons.IH)
  finally show ?case by simp
qed

lemma foldl_max_ge_elem: "r \<in> set rs \<Longrightarrow> r \<le> foldl max (x :: real) rs"
proof (induction rs arbitrary: x)
  case Nil
  then show ?case by simp
next
  case (Cons a rs)
  show ?case
  proof (cases "r = a")
    case True
    have "a \<le> max x a" by simp
    also have "\<dots> \<le> foldl max (max x a) rs" by (rule foldl_max_ge_init)
    finally show ?thesis using True by simp
  next
    case False
    with Cons.prems have "r \<in> set rs" by simp
    then show ?thesis using Cons.IH by simp
  qed
qed

lemma foldl_max_in: "foldl max (x :: real) rs \<in> set (x # rs)"
proof (induction rs arbitrary: x)
  case Nil
  then show ?case by simp
next
  case (Cons r rs)
  from Cons [of "max x r"] show ?case by (auto simp: max_def split: if_splits)
qed

lemma nanmax_Fin:
  assumes "rs \<noteq> []" "\<forall>r\<in>set rs. r \<le> b" "b \<in> set rs"
  shows "nanmax (map Fin rs) = Inr (Fin b)"
proof -
  obtain x rest where rs: "rs = x # rest" using assms(1) by (cases rs) auto
  have ge: "b \<le> foldl max x rest"
    using foldl_max_ge_init [of x rest] foldl_max_ge_elem [of b rest x] assms(3) unfolding rs by auto
  have "foldl max x rest \<le> b"
    using foldl_max_in [of x rest] assms(2) unfolding rs by auto
  with ge have "foldl max x rest = b" by simp
  then show ?thesis by (simp add: nanmax_def rs foldl_fmax_Fin)
qed

lemma argmax_loop_Fin:
  "(argmax_loop k (Fin m) i (map Fin rs) = k \<and> (\<forall>x\<in>set rs. x \<le> m))
   \<or> (i \<le> argmax_loop k (Fin m) i (map Fin rs)
      \<and> argmax_loop k (Fin m) i (map Fin rs) < i + length rs
      \<and> m < rs ! (argmax_loop k (Fin m) i (map Fin rs) - i)
      \<and> (\<forall>x\<in>set rs. x \<le> rs ! (argmax_loop k (Fin m) i (map Fin rs) - i)))"
proof (induction rs arbitrary: k m i)
  case Nil
  then show ?case by simp
next
  case (Cons r rs)
  show ?case
  proof (cases "r \<le> m")
    case True
    then have eq: "argmax_loop k (Fin m) i (map Fin (r # rs)) = argmax_loop k (Fin m) (Suc i) (map Fin rs)"
      by simp
    from Cons [of k m "Suc i"] show ?thesis
    proof
      assume "argmax_loop k (Fin m) (Suc i) (map Fin rs) = k \<and> (\<forall>x\<in>set rs. x \<le> m)"
      with True show ?thesis unfolding eq by simp
    next
      assume a: "Suc i \<le> argmax_loop k (Fin m) (Suc i) (map Fin rs)
      \<and> argmax_loop k (Fin m) (Suc i) (map Fin rs) < Suc i + length rs
      \<and> m < rs ! (argmax_loop k (Fin m) (Suc i) (map Fin rs) - Suc i)
      \<and> (\<forall>x\<in>set rs. x \<le> rs ! (argmax_loop k (Fin m) (Suc i) (map Fin rs) - Suc i))"
      define j where "j = argmax_loop k (Fin m) (Suc i) (map Fin rs)"
      from a have j: "Suc i \<le> j" "j < Suc i + length rs" "m < rs ! (j - Suc i)"
        "\<forall>x\<in>set rs. x \<le> rs ! (j - Suc i)" unfolding j_def by auto
      from j(1) have idx: "(r # rs) ! (j - i) = rs ! (j - Suc i)"
      proof -
        from j(1) have "j - i = Suc (j - Suc i)" by arith
        then show ?thesis by simp
      qed
      have "i \<le> j \<and> j < i + length (r # rs) \<and> m < (r # rs) ! (j - i)
            \<and> (\<forall>x\<in>set (r # rs). x \<le> (r # rs) ! (j - i))"
        using j True unfolding idx by auto
      then show ?thesis unfolding eq j_def [symmetric] by blast
    qed
  next
    case False
    then have eq: "argmax_loop k (Fin m) i (map Fin (r # rs)) = argmax_loop i (Fin r) (Suc i) (map Fin rs)"
      by simp
    from Cons [of i r "Suc i"] show ?thesis
    proof
      assume "argmax_loop i (Fin r) (Suc i) (map Fin rs) = i \<and> (\<forall>x\<in>set rs. x \<le> r)"
      with False show ?thesis unfolding eq by simp
    next
      assume a: "Suc i \<le> argmax_loop i (Fin r) (Suc i) (map Fin rs)
      \<and> argmax_loop i (Fin r) (Suc i) (map Fin rs) < Suc i + length rs
      \<and> r < rs ! (argmax_loop i (Fin r) (Suc i) (map Fin rs) - Suc i)
      \<and> (\<forall>x\<in>set rs. x \<le> rs ! (argmax_loop i (Fin r) (Suc i) (map Fin rs) - Suc i))"
      define j where "j = argmax_loop i (Fin r) (Suc i) (map Fin rs)"
      from a have j: "Suc i \<le> j" "j < Suc i + length rs" "r < rs ! (j - Suc i)"
        "\<forall>x\<in>set rs. x \<le> rs ! (j - Suc i)" unfolding j_def by auto
      from j(1) have idx: "(r # rs) ! (j - i) = rs ! (j - Suc i)"
      proof -
        from j(1) have "j - i = Suc (j - Suc i)" by arith
        then show ?thesis by simp
      qed
      have "i \<le> j \<and> j < i + length (r # rs) \<and> m < (r # rs) ! (j - i)
            \<and> (\<forall>x\<in>set (r # rs). x \<le> (r # rs) ! (j - i))"
        using j False unfolding idx by auto
      then show ?thesis unfolding eq j_def [symmetric] by blast
    qed
  qed
qed

lemma argmax_Fin:
  assumes "rs \<noteq> []"
  shows "\<exists>i. argmax (map Fin rs) = Inr i \<and> i < length rs \<and> (\<forall>x\<in>set rs. x \<le> rs ! i)"
proof -
  obtain x rest where rs: "rs = x # rest" using assms by (cases rs) auto
  define j where "j = argmax_loop 0 (Fin x) 1 (map Fin rest)"
  have am: "argmax (map Fin rs) = Inr j" by (simp add: argmax_def rs j_def)
  from argmax_loop_Fin [of 0 x 1 rest]
  have "j < length rs \<and> (\<forall>x\<in>set rs. x \<le> rs ! j)"
  proof
    assume "argmax_loop 0 (Fin x) 1 (map Fin rest) = 0 \<and> (\<forall>y\<in>set rest. y \<le> x)"
    then show ?thesis unfolding rs j_def by simp
  next
    assume "1 \<le> argmax_loop 0 (Fin x) 1 (map Fin rest)
      \<and> argmax_loop 0 (Fin x) 1 (map Fin rest) < 1 + length rest
      \<and> x < rest ! (argmax_loop 0 (Fin x) 1 (map Fin rest) - 1)
      \<and> (\<forall>y\<in>set rest. y \<le> rest ! (argmax_loop 0 (Fin x) 1 (map Fin rest) - 1))"
    then have j: "1 \<le> j" "j < 1 + length rest" "x < rest ! (j - 1)"
      "\<forall>y\<in>set rest. y \<le> rest ! (j - 1)" unfolding j_def by auto
    from j(1) have "(x # rest) ! j = rest ! (j - 1)" by (cases j) auto
    with j show ?thesis unfolding rs by auto
  qed
  with am show ?thesis by blast
qed

subsection \<open>Counts of predictions\<close>

lemma finite_scores_Fin: "finite_scores (map Fin ls) = Some ls"
  by (induction ls) auto

lemma filter_length_mono:
  "(\<And>x. P x \<Longrightarrow> Q x) \<Longrightarrow> length (filter P xs) \<le> length (filter Q xs)"
  by (induction xs) auto

lemma filter_length_eq_iff:
  assumes "\<And>x. P x \<Longrightarrow> Q x"
  shows "(length (filter P xs) = length (filter Q xs)) = (\<forall>x\<in>set xs. Q x \<longrightarrow> P x)"
proof (induction xs)
  case Nil
  show ?case by simp
next
  case (Cons x xs)
  have le: "length (filter P xs) \<le> length (filter Q xs)"
    using assms by (rule filter_length_mono)
  show ?case
  proof (cases "Q x \<and> \<not> P x")
    case True
    with le show ?thesis by auto
  next
    case False
    with assms [of x] Cons show ?thesis by auto
  qed
qed

lemma count_pred_le_total: "count_pred cls p ys ls \<le> count_pred cls (\<lambda>s. True) ys ls"
  unfolding count_pred_def by (rule filter_length_mono) auto

lemma zip_ball_nth:
  "(\<forall>x\<in>set (zip ys ls). Q (fst x) (snd x)) = (\<forall>i. i < length ys \<and> i < length ls \<longrightarrow> Q (ys ! i) (ls ! i))"
proof
  assume a: "\<forall>x\<in>set (zip ys ls). Q (fst x) (snd x)"
  show "\<forall>i. i < length ys \<and> i < length ls \<longrightarrow> Q (ys ! i) (ls ! i)"
  proof (intro allI impI)
    fix i assume i: "i < length ys \<and> i < length ls"
    then have "(ys ! i, ls ! i) \<in> set (zip ys ls)"
      by (metis length_zip min_less_iff_conj nth_mem nth_zip)
    with a show "Q (ys ! i) (ls ! i)" by fastforce
  qed
next
  assume a: "\<forall>i. i < length ys \<and> i < length ls \<longrightarrow> Q (ys ! i) (ls ! i)"
  show "\<forall>x\<in>set (zip ys ls). Q (fst x) (snd x)"
  proof
    fix x assume "x \<in> set (zip ys ls)"
    then obtain i where "ys ! i = fst x" "ls ! i = snd x" "i < length ys" "i < length ls"
      unfolding in_set_zip by blast
    with a show "Q (fst x) (snd x)" by metis
  qed
qed

lemma count_pred_total_iff:
  "(count_pred cls p ys ls = count_pred cls (\<lambda>s. True) ys ls)
     = (\<forall>i. i < length ys \<and> i < length ls \<longrightarrow> (ys ! i = cls \<longrightarrow> p (ls ! i)))"
proof -
  have "(count_pred cls p ys ls = count_pred cls (\<lambda>s. True) ys ls)
          = (\<forall>x\<in>set (zip ys ls). (case x of (y, s) \<Rightarrow> y = cls \<and> True)
                \<longrightarrow> (case x of (y, s) \<Rightarrow> y = cls \<and> p s))"
    unfolding count_pred_def by (rule filter_length_eq_iff) auto
  also have "\<dots> = (\<forall>x\<in>set (zip ys ls). (fst x = cls \<longrightarrow> p (snd x)))"
    by (simp add: case_prod_beta)
  also have "\<dots> = (\<forall>i. i < length ys \<and> i < length ls \<longrightarrow> (ys ! i = cls \<longrightarrow> p (ls ! i)))"
    by (rule zip_ball_nth)
  finally show ?thesis .
qed

lemma count_pred_zero_iff:
  "(count_pred cls p ys ls = 0)
     = (\<forall>i. i < length ys \<and> i < length ls \<longrightarrow> \<not> (ys ! i = cls \<and> p (ls ! i)))"
proof -
  have "(count_pred cls p ys ls = 0)
          = (\<forall>x\<in>set (zip ys ls). \<not> (fst x = cls \<and> p (snd x)))"
    unfolding count_pred_def length_0_conv filter_empty_conv
    by (simp add: case_prod_beta)
  also have "\<dots> = (\<forall>i. i < length ys \<and> i < length ls \<longrightarrow> \<not> (ys ! i = cls \<and> p (ls ! i)))"
    by (rule zip_ball_nth)
  finally show ?thesis .
qed

lemma count_pred_pos:
  "i < length ys \<Longrightarrow> i < length ls \<Longrightarrow> ys ! i = cls \<Longrightarrow> p (ls ! i) \<Longrightarrow> 0 < count_pred cls p ys ls"
  using count_pred_zero_iff [of cls p ys ls] by (cases "count_pred cls p ys ls = 0") blast+

subsection \<open>The F1 score from the counts\<close>

lemma frac_cancel_denominator:
  fixes p q d :: real
  assumes "d \<noteq> 0"
  shows "(p / d) / (q / d) = p / q"
  using assms by simp

lemma f1_closed_form:
  fixes a b c :: real
  assumes "0 < a" "0 \<le> b" "a \<le> c"
  shows "2 * (a / (a + b)) * (a / c) / (a / (a + b) + a / c) = 2 * a / (2 * a + b + (c - a))"
proof -
  have c: "c \<noteq> 0" using assms by linarith
  have ab: "a + b \<noteq> 0" using assms by linarith
  have a0: "a \<noteq> 0" using assms by linarith
  have d: "(a + b) * c \<noteq> 0" using c ab by simp
  have s: "a / (a + b) + a / c = (a * (a + b + c)) / ((a + b) * c)"
    using c ab by (simp add: add_frac_eq algebra_simps)
  have n: "2 * (a / (a + b)) * (a / c) = (2 * a * a) / ((a + b) * c)"
    by simp
  have "2 * (a / (a + b)) * (a / c) / (a / (a + b) + a / c)
          = ((2 * a * a) / ((a + b) * c)) / ((a * (a + b + c)) / ((a + b) * c))"
    unfolding s n ..
  also have "\<dots> = (2 * a * a) / (a * (a + b + c))"
    using d by (rule frac_cancel_denominator)
  also have "\<dots> = 2 * a / (a + b + c)"
    using a0 by simp
  also have "a + b + c = 2 * a + b + (c - a)" by simp
  finally show ?thesis .
qed

lemma f1_of_counts:
  assumes "0 < tp" "tp \<le> tot"
  shows "f1_of (Fin (real tp / real (tp + fp))) (fdiv (real tp) (real tot))
           = Fin (2 * real tp / (2 * real tp + real fp + real (tot - tp)))"
proof -
  have t: "real tot \<noteq> 0" using assms by simp
  have pr: "real tp / real (tp + fp) + real tp / real tot \<noteq> 0"
  proof -
    have "0 < real tp / real (tp + fp)" using assms by simp
    moreover have "0 < real tp / real tot" using assms by simp
    ultimately show ?thesis by linarith
  qed
  have "f1_of (Fin (real tp / real (tp + fp))) (fdiv (real tp) (real tot))
          = Fin (2 * (real tp / real (tp + fp)) * (real tp / real tot)
                 / (real tp / real (tp + fp) + real tp / real tot))"
    using t pr by (simp add: fdiv_def)
  also have "2 * (real tp / real (tp + fp)) * (real tp / real tot)
                 / (real tp / real (tp + fp) + real tp / real tot)
             = 2 * real tp / (2 * real tp + real fp + (real tot - real tp))"
    using f1_closed_form [of "real tp" "real fp" "real tot"] assms by simp
  also have "real tot - real tp = real (tot - tp)"
    using assms by (simp add: of_nat_diff)
  finally show ?thesis .
qed

lemma f1_value_le_one:
  assumes "0 < tp"
  shows "2 * real tp / (2 * real tp + real fp + real fn) \<le> 1"
    and "2 * real tp / (2 * real tp + real fp + real fn) = 1 \<Longrightarrow> fp = 0 \<and> fn = 0"
proof -
  have d: "0 < 2 * real tp + real fp + real fn" using assms by simp
  show "2 * real tp / (2 * real tp + real fp + real fn) \<le> 1"
    using d by (simp add: field_simps)
  assume "2 * real tp / (2 * real tp + real fp + real fn) = 1"
  then have "2 * real tp = 2 * real tp + real fp + real fn"
    using d by (simp add: field_simps)
  then have "real fp + real fn = 0" by linarith
  then have "real (fp + fn) = 0" by simp
  then show "fp = 0 \<and> fn = 0" by simp
qed

subsection \<open>The curve of separated scores\<close>

lemma perfectly_separated_nth:
  assumes "perfectly_separated ys ls" "i < length ys" "i < length ls" "j < length ys" "j < length ls"
    "ys ! i" "\<not> ys ! j"
  shows "ls ! j < ls ! i"
proof -
  have a: "\<forall>x\<in>set (zip ys ls). \<forall>x'\<in>set (zip ys ls). fst x \<and> \<not> fst x' \<longrightarrow> snd x' < snd x"
    using assms(1) unfolding perfectly_separated_def list_all_iff by (simp add: case_prod_beta)
  have i: "(ys ! i, ls ! i) \<in> set (zip ys ls)"
    unfolding in_set_zip using assms(2,3) by (intro exI [of _ i]) simp
  have j: "(ys ! j, ls ! j) \<in> set (zip ys ls)"
    unfolding in_set_zip using assms(4,5) by (intro exI [of _ j]) simp
  from a i j have "fst (ys ! i, ls ! i) \<and> \<not> fst (ys ! j, ls ! j) \<longrightarrow> snd (ys ! j, ls ! j) < snd (ys ! i, ls ! i)"
    by blast
  then show ?thesis using assms(6,7) by simp
qed

lemma map2_append_last:
  "map2 f (map p xs @ [a]) (map r xs @ [b]) = map (\<lambda>x. f (p x) (r x)) xs @ [f a b]"
  by (induction xs) simp_all

lemma curve_thresholds_subset: "set (curve_thresholds legacy ys ls) \<subseteq> set ls"
  by (auto simp: curve_thresholds_def Let_def)

lemma threshold_true_positive:
  assumes len: "length ys = length ls" and pos: "True \<in> set ys"
    and sep: "perfectly_separated ys ls" and t: "t \<in> set ls"
  shows "0 < count_pred True (\<lambda>s. t \<le> s) ys ls"
proof -
  from t obtain k where k: "k < length ls" "ls ! k = t" by (auto simp: in_set_conv_nth)
  from pos obtain p where p: "p < length ys" "ys ! p" by (auto simp: in_set_conv_nth)
  show ?thesis
  proof (cases "ys ! k")
    case True
    have "t \<le> ls ! k" using k by simp
    with True k len show ?thesis
      by (intro count_pred_pos [of k]) simp_all
  next
    case False
    have "ls ! k < ls ! p"
      using sep p k len False by (intro perfectly_separated_nth [of ys ls p k]) simp_all
    then have "t \<le> ls ! p" using k by simp
    with p len show ?thesis
      by (intro count_pred_pos [of p]) simp_all
  qed
qed

lemma f1_at_threshold:
  assumes tp: "0 < count_pred True (\<lambda>s. t \<le> s) ys ls"
  shows "f1_of (precision_at ys ls t) (recall_at legacy ys ls t)
           = Fin (2 * real (count_pred True (\<lambda>s. t \<le> s) ys ls)
                  / (2 * real (count_pred True (\<lambda>s. t \<le> s) ys ls)
                     + real (count_pred False (\<lambda>s. t \<le> s) ys ls)
                     + real (count_pred True (\<lambda>s. True) ys ls
                             - count_pred True (\<lambda>s. t \<le> s) ys ls)))"
proof -
  have le: "count_pred True (\<lambda>s. t \<le> s) ys ls \<le> count_pred True (\<lambda>s. True) ys ls"
    by (rule count_pred_le_total)
  have tot: "count_pred True (\<lambda>s. True) ys ls \<noteq> 0" using tp le by linarith
  have p: "precision_at ys ls t
             = Fin (real (count_pred True (\<lambda>s. t \<le> s) ys ls)
                    / real (count_pred True (\<lambda>s. t \<le> s) ys ls + count_pred False (\<lambda>s. t \<le> s) ys ls))"
    using tp by (simp add: precision_at_def Let_def)
  have r: "recall_at legacy ys ls t
             = fdiv (real (count_pred True (\<lambda>s. t \<le> s) ys ls)) (real (count_pred True (\<lambda>s. True) ys ls))"
    using tot by (simp add: recall_at_def Let_def)
  show ?thesis unfolding p r using tp le by (rule f1_of_counts)
qed

lemma least_positive_score:
  fixes ls :: "real list"
  assumes len: "length ys = length ls" and pos: "True \<in> set ys"
  shows "\<exists>p. p < length ys \<and> ys ! p \<and> (\<forall>i. i < length ys \<and> ys ! i \<longrightarrow> ls ! p \<le> ls ! i)"
proof -
  define S where "S = {ls ! i | i. i < length ys \<and> ys ! i}"
  have fin: "finite S" unfolding S_def by simp
  from pos obtain q where q: "q < length ys" "ys ! q" by (auto simp: in_set_conv_nth)
  then have ne: "S \<noteq> {}" unfolding S_def by blast
  have "Min S \<in> S" using fin ne by (rule Min_in)
  then obtain p where p: "p < length ys" "ys ! p" "ls ! p = Min S" unfolding S_def by auto
  have "ls ! p \<le> ls ! i" if "i < length ys \<and> ys ! i" for i
  proof -
    have "ls ! i \<in> S" unfolding S_def using that by blast
    then have "Min S \<le> ls ! i" using fin by (rule Min_le [rotated])
    then show ?thesis using p by simp
  qed
  with p show ?thesis by blast
qed

lemma separating_threshold:
  assumes len: "length ys = length ls" and pos: "True \<in> set ys"
    and sep: "perfectly_separated ys ls"
  shows "\<exists>t. t \<in> set (curve_thresholds legacy ys ls)
           \<and> count_pred True (\<lambda>s. t \<le> s) ys ls = count_pred True (\<lambda>s. True) ys ls
           \<and> count_pred False (\<lambda>s. t \<le> s) ys ls = 0"
proof -
  from least_positive_score [OF len pos] obtain p where
    p: "p < length ys" "ys ! p" and least: "\<And>i. i < length ys \<Longrightarrow> ys ! i \<Longrightarrow> ls ! p \<le> ls ! i"
    by blast
  let ?t = "ls ! p"
  have tin: "?t \<in> set ls" using p len by simp
  have tps: "count_pred True (\<lambda>s. ?t \<le> s) ys ls = count_pred True (\<lambda>s. True) ys ls"
    unfolding count_pred_total_iff using least by simp
  have fps: "count_pred False (\<lambda>s. ?t \<le> s) ys ls = 0"
    unfolding count_pred_zero_iff
  proof (intro allI impI)
    fix i assume i: "i < length ys \<and> i < length ls"
    show "\<not> (ys ! i = False \<and> ?t \<le> ls ! i)"
    proof
      assume a: "ys ! i = False \<and> ?t \<le> ls ! i"
      have "ls ! i < ls ! p"
        using sep p i len a by (intro perfectly_separated_nth [of ys ls p i]) simp_all
      with a show False by simp
    qed
  qed
  have full: "u \<le> ?t"
    if "count_pred True (\<lambda>s. u \<le> s) ys ls = count_pred True (\<lambda>s. True) ys ls" for u
    using that p len unfolding count_pred_total_iff by simp
  have "?t \<in> set (curve_thresholds legacy ys ls)"
    using tin full by (simp add: curve_thresholds_def Let_def list_all_iff)
  with tps fps show ?thesis by blast
qed

lemma roc_auc_score_defined:
  assumes "length ys = length ls" "True \<in> set ys" "False \<in> set ys"
  shows "\<exists>r. roc_auc_score ys ls = Inr r"
proof -
  have "\<not> list_all (\<lambda>y. y) ys" using assms(3) by (auto simp: list_all_iff)
  moreover have "\<not> list_all (\<lambda>y. \<not> y) ys" using assms(2) by (auto simp: list_all_iff)
  ultimately show ?thesis using assms(1) by (simp add: roc_auc_score_def Let_def)
qed

lemma f1_score_self:
  assumes "True \<in> set ys"
  shows "f1_score ys ys = Inr 1"
proof -
  have z: "zip ys ys = map (\<lambda>y. (y, y)) ys" by (rule zip_same_conv_map)
  have tp: "length (filter (\<lambda>(y, p). y \<and> p) (zip ys ys)) = length (filter (\<lambda>y. y) ys)"
    unfolding z by (simp add: filter_map comp_def)
  have fp: "length (filter (\<lambda>(y, p). \<not> y \<and> p) (zip ys ys)) = 0"
    unfolding z by (simp add: filter_map comp_def)
  have fn: "length (filter (\<lambda>(y, p). y \<and> \<not> p) (zip ys ys)) = 0"
    unfolding z by (simp add: filter_map comp_def)
  have "filter (\<lambda>y. y) ys \<noteq> []" using assms by (auto simp: filter_empty_conv)
  then have n: "0 < length (filter (\<lambda>y. y) ys)" by simp
  show ?thesis
    unfolding f1_score_def Let_def tp fp fn using n by simp
qed

lemma separated_scores_validation:
  assumes len: "length true_labels = length losses"
    and pos: "True \<in> set true_labels" and neg: "False \<in> set true_labels"
    and sep: "perfectly_separated true_labels losses"
  shows "\<exists>roc thr. compute_metrics legacy (map Fin losses) true_labels None
             = Inr \<lparr> metric_roc_auc = roc,
                     metric_mse = sum_list losses / real (length losses),
                     metric_f1_score = Fin 1, metric_optimal_mse_threshold = thr \<rparr>
           \<and> roc_auc_score true_labels losses = Inr roc
           \<and> thr \<in> set losses
           \<and> map (\<lambda>l. thr \<le> l) losses = true_labels
           \<and> f1_score true_labels (map (\<lambda>l. thr \<le> l) losses) = Inr 1"
proof -
  define ths where "ths = curve_thresholds legacy true_labels losses"
  define tp where "tp t = count_pred True (\<lambda>s. t \<le> s) true_labels losses" for t
  define fp where "fp t = count_pred False (\<lambda>s. t \<le> s) true_labels losses" for t
  define tot where "tot = count_pred True (\<lambda>s. True) true_labels losses"
  define g where "g t = 2 * real (tp t) / (2 * real (tp t) + real (fp t) + real (tot - tp t))" for t
  define rs where "rs = map g ths @ [0]"
  have sub: "t \<in> set losses" if "t \<in> set ths" for t
    using that curve_thresholds_subset [of legacy true_labels losses] unfolding ths_def by blast
  have tpos: "0 < tp t" if "t \<in> set ths" for t
    unfolding tp_def using len pos sep sub [OF that] by (rule threshold_true_positive)
  have tple: "tp t \<le> tot" for t
    unfolding tp_def tot_def by (rule count_pred_le_total)
  have f1t: "f1_of (precision_at true_labels losses t) (recall_at legacy true_labels losses t) = Fin (g t)"
    if "t \<in> set ths" for t
    using f1_at_threshold [of t true_labels losses legacy] tpos [OF that]
    unfolding g_def tp_def fp_def tot_def by simp
  have last: "f1_of (Fin 1) (Fin 0) = Fin 0" by (simp add: fdiv_def)
  have "map2 f1_of (map (precision_at true_labels losses) ths @ [Fin 1])
                   (map (recall_at legacy true_labels losses) ths @ [Fin 0])
          = map (\<lambda>t. f1_of (precision_at true_labels losses t) (recall_at legacy true_labels losses t)) ths
            @ [Fin 0]"
    unfolding map2_append_last last ..
  also have "map (\<lambda>t. f1_of (precision_at true_labels losses t) (recall_at legacy true_labels losses t)) ths
               = map (\<lambda>t. Fin (g t)) ths"
    by (rule map_cong [OF refl]) (rule f1t)
  finally have f1s: "map2 f1_of (map (precision_at true_labels losses) ths @ [Fin 1])
                   (map (recall_at legacy true_labels losses) ths @ [Fin 0]) = map Fin rs"
    unfolding rs_def by simp
  have le1: "\<forall>r\<in>set rs. r \<le> 1"
  proof
    fix r assume "r \<in> set rs"
    then consider "r = 0" | t where "t \<in> set ths" "r = g t" unfolding rs_def by auto
    then show "r \<le> 1"
    proof cases
      case 1
      then show ?thesis by simp
    next
      case 2
      show ?thesis unfolding 2(2) g_def using tpos [OF 2(1)] by (rule f1_value_le_one(1))
    qed
  qed
  from separating_threshold [OF len pos sep, of legacy] obtain t0 where
    t0: "t0 \<in> set ths" "tp t0 = tot" "fp t0 = 0"
    unfolding ths_def tp_def fp_def tot_def by blast
  have "g t0 = 1" unfolding g_def using t0 tpos [OF t0(1)] by simp
  then have one: "1 \<in> set rs" unfolding rs_def using t0(1) by force
  have ne: "rs \<noteq> []" unfolding rs_def by simp
  have nm: "nanmax (map Fin rs) = Inr (Fin 1)" using ne le1 one by (rule nanmax_Fin)
  from argmax_Fin [OF ne] obtain i where
    am: "argmax (map Fin rs) = Inr i" and il: "i < length rs" and imax: "\<forall>x\<in>set rs. x \<le> rs ! i"
    by blast
  have ge: "1 \<le> rs ! i" using imax one by blast
  have i: "i < length ths"
  proof (rule ccontr)
    assume "\<not> i < length ths"
    then have "i = length ths" using il unfolding rs_def by simp
    then have "rs ! i = 0" unfolding rs_def by (simp add: nth_append)
    with ge show False by simp
  qed
  define thr where "thr = ths ! i"
  have thr: "thr \<in> set ths" unfolding thr_def using i by simp
  have "rs ! i = g thr" unfolding rs_def thr_def using i by (simp add: nth_append)
  moreover have "rs ! i \<le> 1" using le1 il by simp
  ultimately have g1: "g thr = 1" using ge by simp
  have "fp thr = 0 \<and> tot - tp thr = 0"
    using tpos [OF thr] g1 [unfolded g_def] by (rule f1_value_le_one(2))
  then have fp0: "fp thr = 0" and tpt: "tp thr = tot" using tple [of thr] by simp_all
  have lab: "true_labels ! k = (thr \<le> losses ! k)" if "k < length losses" for k
  proof (cases "true_labels ! k")
    case True
    from tpt have "\<forall>i. i < length true_labels \<and> i < length losses
                     \<longrightarrow> (true_labels ! i = True \<longrightarrow> thr \<le> losses ! i)"
      unfolding tp_def tot_def count_pred_total_iff .
    then have "thr \<le> losses ! k" using that len True by auto
    with True show ?thesis by simp
  next
    case False
    from fp0 have "\<forall>i. i < length true_labels \<and> i < length losses
                     \<longrightarrow> \<not> (true_labels ! i = False \<and> thr \<le> losses ! i)"
      unfolding fp_def count_pred_zero_iff .
    then have "\<not> thr \<le> losses ! k" using that len False by auto
    with False show ?thesis by simp
  qed
  have pred: "map (\<lambda>l. thr \<le> l) losses = true_labels"
    using len lab by (intro nth_equalityI) simp_all
  have f1: "f1_score true_labels (map (\<lambda>l. thr \<le> l) losses) = Inr 1"
    unfolding pred using pos by (rule f1_score_self)
  from roc_auc_score_defined [OF len pos neg] obtain roc where
    roc: "roc_auc_score true_labels losses = Inr roc" by blast
  have nonempty: "true_labels \<noteq> []" using pos by auto
  have prc: "precision_recall_curve legacy true_labels losses
               = Inr (map (precision_at true_labels losses) ths @ [Fin 1],
                      map (recall_at legacy true_labels losses) ths @ [Fin 0], ths)"
    using nonempty len by (simp add: precision_recall_curve_def Let_def ths_def)
  have it: "item ths i = Some thr" using i by (simp add: item_def thr_def)
  have "compute_metrics legacy (map Fin losses) true_labels None
          = Inr \<lparr> metric_roc_auc = roc,
                  metric_mse = sum_list losses / real (length losses),
                  metric_f1_score = Fin 1, metric_optimal_mse_threshold = thr \<rparr>"
    by (simp only: compute_metrics_def finite_scores_Fin roc prc Let_def f1s nm am it
        option.case sum.case prod.case)
  moreover have "thr \<in> set losses" using thr by (rule sub)
  ultimately show ?thesis using roc pred f1 by blast
qed


lemma f1_score_missed_positive:
  assumes len: "length ys = length ps" and k: "k < length ys" and y: "ys ! k" and p: "\<not> ps ! k"
  shows "\<exists>f. f1_score ys ps = Inr f \<and> f < 1"
proof -
  define tp where "tp = length (filter (\<lambda>(y, p). y \<and> p) (zip ys ps))"
  define fp where "fp = length (filter (\<lambda>(y, p). \<not> y \<and> p) (zip ys ps))"
  define fn where "fn = length (filter (\<lambda>(y, p). y \<and> \<not> p) (zip ys ps))"
  define precision where "precision = (if tp + fp = 0 then 0 else real tp / real (tp + fp))"
  define recall where "recall = (if tp + fn = 0 then 0 else real tp / real (tp + fn))"
  define f where "f = (if precision + recall = 0 then 0 else 2 * precision * recall / (precision + recall))"
  have val: "f1_score ys ps = Inr f"
    using len by (simp add: f1_score_def Let_def tp_def fp_def fn_def precision_def recall_def f_def)
  have "(ys ! k, ps ! k) \<in> set (zip ys ps)"
    unfolding in_set_zip using k len by (intro exI [of _ k]) simp
  moreover have "(\<lambda>(y, p). y \<and> \<not> p) (ys ! k, ps ! k)" using y p by simp
  ultimately have "\<exists>x\<in>set (zip ys ps). (\<lambda>(y, p). y \<and> \<not> p) x" by (rule bexI [rotated])
  then have "filter (\<lambda>(y, p). y \<and> \<not> p) (zip ys ps) \<noteq> []"
    unfolding filter_empty_conv by blast
  then have fn: "0 < fn" unfolding fn_def by simp
  have "f < 1"
  proof (cases "tp = 0")
    case True
    then have "precision = 0" "recall = 0" unfolding precision_def recall_def by simp_all
    then show ?thesis unfolding f_def by simp
  next
    case False
    then have tp: "0 < tp" by simp
    have pr: "precision = real tp / (real tp + real fp)" unfolding precision_def using tp by simp
    have re: "recall = real tp / real (tp + fn)" unfolding recall_def using tp by simp
    have ppos: "0 < precision" unfolding pr using tp by (intro divide_pos_pos) simp_all
    have rpos: "0 < recall" unfolding re using tp by (intro divide_pos_pos) simp_all
    have "precision + recall \<noteq> 0" using ppos rpos by linarith
    then have "f = 2 * precision * recall / (precision + recall)" unfolding f_def by simp
    also have "\<dots> = 2 * (real tp / (real tp + real fp)) * (real tp / real (tp + fn))
                      / (real tp / (real tp + real fp) + real tp / real (tp + fn))"
      unfolding pr re ..
    also have "\<dots> = 2 * real tp / (2 * real tp + real fp + (real (tp + fn) - real tp))"
      using tp by (intro f1_closed_form) simp_all
    also have "\<dots> = 2 * real tp / (2 * real tp + real fp + real fn)" by simp
    also have "\<dots> < 1" using tp fn by simp
    finally show ?thesis .
  qed
  with val show ?thesis by blast
qed

text \<open>
  C6. For labels that hold both classes and scores that separate them, every abnormal
  score above every normal one, the validation returns metrics (no exception) and the F1
  score returned is 1; the threshold returned is a score that the abnormal samples, and
  only they, reach. The program applies a threshold in the test branch of \<open>evaluate\<close>,
  where a sample is abnormal when its score is above the threshold: with the threshold of
  the validation, on the scores of the validation, the test branch returns metrics whose
  F1 score is below 1, as the abnormal sample whose score is the threshold is predicted
  normal.
\<close>

theorem separated_scores_threshold_misses_sample:
  assumes len: "length true_labels = length losses"
    and pos: "True \<in> set true_labels" and neg: "False \<in> set true_labels"
    and sep: "perfectly_separated true_labels losses"
  shows "\<exists>m m' f. compute_metrics legacy (map Fin losses) true_labels None = Inr m
           \<and> metric_f1_score m = Fin 1
           \<and> map (\<lambda>l. metric_optimal_mse_threshold m \<le> l) losses = true_labels
           \<and> compute_metrics legacy (map Fin losses) true_labels
                 (Some (metric_optimal_mse_threshold m)) = Inr m'
           \<and> metric_optimal_mse_threshold m' = metric_optimal_mse_threshold m
           \<and> metric_f1_score m' = Fin f \<and> f < 1"
proof -
  from separated_scores_validation [OF len pos neg sep, of legacy] obtain roc thr where
    val: "compute_metrics legacy (map Fin losses) true_labels None
             = Inr \<lparr> metric_roc_auc = roc,
                     metric_mse = sum_list losses / real (length losses),
                     metric_f1_score = Fin 1, metric_optimal_mse_threshold = thr \<rparr>"
    and roc: "roc_auc_score true_labels losses = Inr roc"
    and thr: "thr \<in> set losses"
    and pred: "map (\<lambda>l. thr \<le> l) losses = true_labels"
    by blast
  from thr obtain k where k: "k < length losses" "losses ! k = thr"
    by (auto simp: in_set_conv_nth)
  have "true_labels ! k = map (\<lambda>l. thr \<le> l) losses ! k" unfolding pred ..
  then have yk: "true_labels ! k" using k by simp
  have pk: "\<not> map (\<lambda>l. thr < l) losses ! k" using k by simp
  have "\<exists>f. f1_score true_labels (map (\<lambda>l. thr < l) losses) = Inr f \<and> f < 1"
    using k(1) yk pk by (intro f1_score_missed_positive [of _ _ k]) (simp_all add: len)
  then obtain f where f: "f1_score true_labels (map (\<lambda>l. thr < l) losses) = Inr f" "f < 1"
    by blast
  have test: "compute_metrics legacy (map Fin losses) true_labels (Some thr)
          = Inr \<lparr> metric_roc_auc = roc,
                  metric_mse = sum_list losses / real (length losses),
                  metric_f1_score = Fin f, metric_optimal_mse_threshold = thr \<rparr>"
    by (simp only: compute_metrics_def finite_scores_Fin roc Let_def f(1)
        option.case sum.case)
  show ?thesis
    using val pred test f(2) by simp
qed

theorem separated_scores_threshold_misses_sample_witness:
  "length [False, True] = length [1, 2 :: real]
   \<and> True \<in> set [False, True] \<and> False \<in> set [False, True]
   \<and> perfectly_separated [False, True] [1, 2]
   \<and> (\<exists>m m' f. compute_metrics True (map Fin [1, 2]) [False, True] None = Inr m
         \<and> metric_f1_score m = Fin 1
         \<and> map (\<lambda>l. metric_optimal_mse_threshold m \<le> l) [1, 2] = [False, True]
         \<and> compute_metrics True (map Fin [1, 2]) [False, True]
               (Some (metric_optimal_mse_threshold m)) = Inr m'
         \<and> metric_optimal_mse_threshold m' = metric_optimal_mse_threshold m
         \<and> metric_f1_score m' = Fin f \<and> f < 1)
   \<and> compute_metrics True [Fin 1, Fin 2] [False, True] None
       = Inr \<lparr> metric_roc_auc = 1, metric_mse = 3 / 2, metric_f1_score = Fin 1,
               metric_optimal_mse_threshold = 2 \<rparr>
   \<and> compute_metrics True [Fin 1, Fin 2] [False, True] (Some 2)
       = Inr \<lparr> metric_roc_auc = 1, metric_mse = 3 / 2, metric_f1_score = Fin 0,
               metric_optimal_mse_threshold = 2 \<rparr>"
proof -
  have h1: "length [False, True] = length [1, 2 :: real]" by simp
  have h2: "True \<in> set [False, True]" by simp
  have h3: "False \<in> set [False, True]" by simp
  have h4: "perfectly_separated [False, True] [1, 2]"
    by (simp add: perfectly_separated_def)
  note th = separated_scores_threshold_misses_sample [OF h1 h2 h3 h4, of True]
  have v: "compute_metrics True [Fin 1, Fin 2] [False, True] None
       = Inr \<lparr> metric_roc_auc = 1, metric_mse = 3 / 2, metric_f1_score = Fin 1,
               metric_optimal_mse_threshold = 2 \<rparr>"
    by (simp add: compute_metrics_def roc_auc_score_def precision_recall_curve_def
        curve_thresholds_def count_pred_def precision_at_def recall_at_def nanmax_def
        argmax_def item_def fdiv_def Let_def)
  have t: "compute_metrics True [Fin 1, Fin 2] [False, True] (Some 2)
       = Inr \<lparr> metric_roc_auc = 1, metric_mse = 3 / 2, metric_f1_score = Fin 0,
               metric_optimal_mse_threshold = 2 \<rparr>"
    by (simp add: compute_metrics_def roc_auc_score_def f1_score_def Let_def)
  show ?thesis
    apply (intro conjI)
          apply (rule h1)
         apply (rule h2)
        apply (rule h3)
       apply (rule h4)
      apply (rule th)
     apply (rule v)
    apply (rule t)
    done
qed

end
